theory Spec2Isabelle
  imports Complex_Main "HOL-Library.AList" "HOL-Library.Char_ord" "HOL-Library.List_Lexorder" "HOL-Library.Product_Lexorder"
    "HOL-Library.Sublist"
begin

section \<open>Data model\<close>

text \<open>
  A pandas DataFrame is a list of column names and a list of rows. Every row carries its
  index label (\<open>load_all_sheets\<close> numbers the rows 0, 1, 2, ... with
  \<open>ignore_index=True\<close>, and no later step renumbers them) and its cells by column
  name; \<open>cell_of r c\<close> reads the cell of row \<open>r\<close> in column \<open>c\<close>.

  A cell is missing (\<open>NA\<close>: pandas' NaN, None and pd.NA alike), a text, an integer, a
  float or a boolean. Floats are modelled as exact real numbers: sums, means and the
  rounding to one decimal are computed without floating-point error, and the difference
  between an int64 and a float64 column holding the same numbers is not modelled.
  Texts are ASCII character lists.
\<close>

datatype cell = NA | Str string | CInt int | CNum real | CBool bool

datatype error = KeyError string | TypeError | ValueError

record row =
  label :: nat
  cells :: "(string \<times> cell) list"

record frame =
  columns :: "string list"
  rows :: "row list"

definition mk_row :: "nat \<Rightarrow> (string \<times> cell) list \<Rightarrow> row" where
  "mk_row l kvs = \<lparr>label = l, cells = kvs\<rparr>"

definition cell_of :: "row \<Rightarrow> string \<Rightarrow> cell" where
  "cell_of r c = (case map_of (cells r) c of None \<Rightarrow> NA | Some v \<Rightarrow> v)"

text \<open>\<open>df[c]\<close> as a list of cells.\<close>

definition column :: "string \<Rightarrow> frame \<Rightarrow> cell list" where
  "column c df = map (\<lambda>r. cell_of r c) (rows df)"

section \<open>Text and number conversions\<close>

text \<open>
  Two conversions belong to pandas and not to this repository: reading a number from a
  text (\<open>pd.to_numeric\<close> on a str cell, None where the text is no number) and writing a
  float as text (\<open>astype("string")\<close> on a float cell). Both are parameters of the model;
  the theorems hold for every choice of them.
\<close>

record pandas_text =
  parse_number :: "string \<Rightarrow> real option"
  float_text :: "real \<Rightarrow> string"

definition whitespace :: string where
  "whitespace = [CHR 0x09, CHR 0x0A, CHR 0x0B, CHR 0x0C, CHR 0x0D, CHR 0x1C, CHR 0x1D, CHR 0x1E,
     CHR 0x1F, CHR '' '']"

definition digits :: string where
  "digits = ''0123456789''"

definition ascii_uppercase :: string where
  "ascii_uppercase = ''ABCDEFGHIJKLMNOPQRSTUVWXYZ''"

definition ascii_lowercase :: string where
  "ascii_lowercase = ''abcdefghijklmnopqrstuvwxyz''"

definition is_space :: "char \<Rightarrow> bool" where
  "is_space c = (c \<in> set whitespace)"

definition is_digit :: "char \<Rightarrow> bool" where
  "is_digit c = (c \<in> set digits)"

definition is_upper :: "char \<Rightarrow> bool" where
  "is_upper c = (c \<in> set ascii_uppercase)"

definition is_lower :: "char \<Rightarrow> bool" where
  "is_lower c = (c \<in> set ascii_lowercase)"

definition to_upper :: "char \<Rightarrow> char" where
  "to_upper c = (case map_of (zip ascii_lowercase ascii_uppercase) c of None \<Rightarrow> c | Some u \<Rightarrow> u)"

definition to_lower :: "char \<Rightarrow> char" where
  "to_lower c = (case map_of (zip ascii_uppercase ascii_lowercase) c of None \<Rightarrow> c | Some l \<Rightarrow> l)"

text \<open>\<open>str.strip()\<close>, \<open>str.upper()\<close> and \<open>str.title()\<close> of Python, on ASCII text.\<close>

definition strip :: "string \<Rightarrow> string" where
  "strip s = rev (dropWhile is_space (rev (dropWhile is_space s)))"

definition upper :: "string \<Rightarrow> string" where
  "upper s = map to_upper s"

fun title_from :: "bool \<Rightarrow> string \<Rightarrow> string" where
  "title_from previous_is_cased [] = []"
| "title_from previous_is_cased (c # cs) =
     (if is_lower c then (if previous_is_cased then c else to_upper c) # title_from True cs
      else if is_upper c then (if previous_is_cased then to_lower c else c) # title_from True cs
      else c # title_from False cs)"

definition title :: "string \<Rightarrow> string" where
  "title s = title_from False s"

text \<open>\<open>str(n)\<close> of a Python integer: decimal digits, no leading zero, a minus sign first.\<close>

definition digit_char :: "nat \<Rightarrow> char" where
  "digit_char d = digits ! d"

fun str_nat :: "nat \<Rightarrow> string" where
  "str_nat n = (if n < 10 then [digit_char n] else str_nat (n div 10) @ [digit_char (n mod 10)])"

declare str_nat.simps [simp del]

definition py_str_int :: "int \<Rightarrow> string" where
  "py_str_int n = (if n < 0 then CHR ''-'' # str_nat (nat (- n)) else str_nat (nat n))"

text \<open>The three regular expressions, each with \<open>fullmatch\<close>.\<close>

definition fullmatch_class :: "string \<Rightarrow> bool" where
  \<comment> \<open>\<open>\d{2}[A-Za-z]\<close>\<close>
  "fullmatch_class s =
     (case s of [a, b, c] \<Rightarrow> is_digit a \<and> is_digit b \<and> (is_upper c \<or> is_lower c) | _ \<Rightarrow> False)"

definition fullmatch_cohort :: "string \<Rightarrow> bool" where
  \<comment> \<open>\<open>\d{2}-\d{2}\<close>\<close>
  "fullmatch_cohort s =
     (case s of [a, b, m, c, d] \<Rightarrow>
        is_digit a \<and> is_digit b \<and> m = CHR ''-'' \<and> is_digit c \<and> is_digit d | _ \<Rightarrow> False)"

definition fullmatch_d4 :: "string \<Rightarrow> bool" where
  \<comment> \<open>\<open>\d{4}\<close>\<close>
  "fullmatch_d4 s =
     (case s of [a, b, c, d] \<Rightarrow> is_digit a \<and> is_digit b \<and> is_digit c \<and> is_digit d | _ \<Rightarrow> False)"

text \<open>\<open>astype("string")\<close> and \<open>pd.to_numeric(..., errors="coerce")\<close> on one cell.\<close>

definition py_str :: "pandas_text \<Rightarrow> cell \<Rightarrow> string option" where
  "py_str P v = (case v of
       NA \<Rightarrow> None
     | Str s \<Rightarrow> Some s
     | CInt n \<Rightarrow> Some (py_str_int n)
     | CNum x \<Rightarrow> Some (float_text P x)
     | CBool b \<Rightarrow> Some (if b then ''True'' else ''False''))"

definition to_numeric :: "pandas_text \<Rightarrow> cell \<Rightarrow> real option" where
  "to_numeric P v = (case v of
       NA \<Rightarrow> None
     | Str s \<Rightarrow> parse_number P s
     | CInt n \<Rightarrow> Some (of_int n)
     | CNum x \<Rightarrow> Some x
     | CBool b \<Rightarrow> Some (if b then 1 else 0))"

text \<open>
  \<open>round(x, 1)\<close> on a pandas Series is numpy's rounding: the value times ten is rounded to
  the nearest integer, a tie going to the even one, and divided by ten.
\<close>

definition rint :: "real \<Rightarrow> int" where
  "rint x = (let f = \<lfloor>x\<rfloor>; d = x - of_int f in
     if d < 1 / 2 then f else if d > 1 / 2 then f + 1 else if even f then f else f + 1)"

definition round1 :: "real \<Rightarrow> real" where
  "round1 x = of_int (rint (x * 10)) / 10"

section \<open>The cleaning pipeline\<close>

definition SPECIAL_NULLS :: "string list" where
  "SPECIAL_NULLS = ['''', '' '', ''NA'', ''N/A'', ''n/a'', ''NaN'', ''-'', ''Waived'', ''None'', ''null'']"

definition BOOL_MAP :: "(string \<times> bool) list" where
  "BOOL_MAP = [(''TRUE'', True), (''FALSE'', False), (''Y'', True), (''N'', False),
     (''YES'', True), (''NO'', False), (''1'', True), (''0'', False), (''1.0'', True), (''0.0'', False)]"

definition str_cols :: "string list" where
  "str_cols = [''FirstName'', ''LastName'', ''Class'', ''Cohort'', ''Track'']"

definition int_cols :: "string list" where
  "int_cols = [''StudentID'', ''Term'']"

definition score_cols :: "string list" where
  "score_cols = [''Math'', ''English'', ''Science'', ''History'', ''Attendance (%)'', ''ProjectScore'']"

definition boolean_cols :: "string list" where
  "boolean_cols = [''IncomeStudent'', ''Passed (Y/N)'']"

text \<open>
  \<open>df[c] = ...\<close> gives column \<open>c\<close> of every row a new cell; the new cell may depend on the
  whole row. \<open>fold_err\<close> is a \<open>for\<close> loop whose body may raise.
\<close>

definition set_col :: "string \<Rightarrow> (row \<Rightarrow> cell) \<Rightarrow> frame \<Rightarrow> frame" where
  "set_col c F df = df\<lparr>rows := map (\<lambda>r. r\<lparr>cells := AList.update c (F r) (cells r)\<rparr>) (rows df)\<rparr>"

definition map_col :: "string \<Rightarrow> (cell \<Rightarrow> cell) \<Rightarrow> frame \<Rightarrow> frame" where
  "map_col c f df = set_col c (\<lambda>r. f (cell_of r c)) df"

fun fold_err :: "('a \<Rightarrow> 's \<Rightarrow> error + 's) \<Rightarrow> 'a list \<Rightarrow> 's \<Rightarrow> error + 's" where
  "fold_err f [] s = Inr s"
| "fold_err f (x # xs) s = (case f x s of Inl e \<Rightarrow> Inl e | Inr s' \<Rightarrow> fold_err f xs s')"

text \<open>\<^verbatim>\<open>df = df.replace(SPECIAL_NULLS, pd.NA)\<close>\<close>

definition replace_null :: "cell \<Rightarrow> cell" where
  "replace_null v = (case v of Str s \<Rightarrow> if s \<in> set SPECIAL_NULLS then NA else v | _ \<Rightarrow> v)"

definition replace_special_nulls :: "frame \<Rightarrow> frame" where
  "replace_special_nulls df =
     df\<lparr>rows := map (\<lambda>r. r\<lparr>cells := map (\<lambda>(k, v). (k, replace_null v)) (cells r)\<rparr>) (rows df)\<rparr>"

text \<open>
  \<^verbatim>\<open>
  for c in str_cols:
      if c in df:
          df[c] = df[c].astype("string").str.strip().str.title()
  \<close>
\<close>

definition normalize_text :: "pandas_text \<Rightarrow> cell \<Rightarrow> cell" where
  "normalize_text P v = (case py_str P v of None \<Rightarrow> NA | Some s \<Rightarrow> Str (title (strip s)))"

definition normalize_str_col :: "pandas_text \<Rightarrow> string \<Rightarrow> frame \<Rightarrow> frame" where
  "normalize_str_col P c df = (if c \<in> set (columns df) then map_col c (normalize_text P) df else df)"

text \<open>
  \<^verbatim>\<open>
  if 'Class' in df:
      df.loc[~df['Class'].str.fullmatch(r'\d{2}[A-Za-z]'), 'Class'] = pd.NA
  if 'Cohort' in df:
      df.loc[~df['Cohort'].str.fullmatch(r'\d{2}-\d{2}'), 'Cohort'] = pd.NA
  \<close>
  Both columns are of string dtype here (they are in \<open>str_cols\<close>); on a missing cell the
  match is missing, and a missing mask entry selects nothing.
\<close>

definition keep_matching :: "(string \<Rightarrow> bool) \<Rightarrow> cell \<Rightarrow> cell" where
  "keep_matching m v = (case v of Str s \<Rightarrow> if m s then v else NA | _ \<Rightarrow> NA)"

definition validate_formats :: "frame \<Rightarrow> frame" where
  "validate_formats df =
     (let df1 = (if ''Class'' \<in> set (columns df)
                 then map_col ''Class'' (keep_matching fullmatch_class) df else df)
      in if ''Cohort'' \<in> set (columns df1)
         then map_col ''Cohort'' (keep_matching fullmatch_cohort) df1 else df1)"

text \<open>
  \<^verbatim>\<open>
  for c in int_cols:
      if c in df:
          df[c] = pd.to_numeric(df[c], errors="coerce").astype("Int64")
  \<close>
  \<open>astype("Int64")\<close> raises TypeError (cannot safely cast) when a value of the column is
  not a whole number.
\<close>

definition is_whole :: "real \<Rightarrow> bool" where
  "is_whole x = (of_int \<lfloor>x\<rfloor> = x)"

definition to_Int64 :: "real option \<Rightarrow> cell" where
  "to_Int64 v = (case v of None \<Rightarrow> NA | Some x \<Rightarrow> CInt \<lfloor>x\<rfloor>)"

definition coerce_int_col :: "pandas_text \<Rightarrow> string \<Rightarrow> frame \<Rightarrow> error + frame" where
  "coerce_int_col P c df =
     (if c \<in> set (columns df) then
        (if list_ex (\<lambda>r. case to_numeric P (cell_of r c) of None \<Rightarrow> False | Some x \<Rightarrow> \<not> is_whole x)
              (rows df)
         then Inl TypeError
         else Inr (map_col c (\<lambda>v. to_Int64 (to_numeric P v)) df))
      else Inr df)"

text \<open>
  \<^verbatim>\<open>
  if 'StudentID' in df:
      df.loc[~df['StudentID'].astype(str).str.fullmatch(r'\d{4}'), 'StudentID'] = pd.NA
  if 'Term' in df:
      df.loc[~df['Term'].isin([1, 2]), 'Term'] = pd.NA
  \<close>
  A missing StudentID reads \<open><NA>\<close> as text, which does not match.
\<close>

definition valid_student_id :: "cell \<Rightarrow> cell" where
  "valid_student_id v =
     (case v of CInt n \<Rightarrow> if fullmatch_d4 (py_str_int n) then v else NA | _ \<Rightarrow> NA)"

definition valid_term :: "cell \<Rightarrow> cell" where
  "valid_term v = (if v = CInt 1 \<or> v = CInt 2 then v else NA)"

definition validate_ids :: "frame \<Rightarrow> frame" where
  "validate_ids df =
     (let df1 = (if ''StudentID'' \<in> set (columns df)
                 then map_col ''StudentID'' valid_student_id df else df)
      in if ''Term'' \<in> set (columns df1) then map_col ''Term'' valid_term df1 else df1)"

text \<open>
  \<^verbatim>\<open>
  for c in score_cols:
      if c in df:
          df[c] = pd.to_numeric(df[c], errors="coerce")
          df.loc[(df[c] < 0) | (df[c] > 100), c] = pd.NA
          grp_mean = df.groupby('Track')[c].transform('mean')
          df[c] = df[c].fillna(round(grp_mean, 1))
  \<close>
  \<open>groupby('Track')\<close> raises KeyError without a Track column. It leaves the rows with a
  missing Track out of every group, so their group mean is missing; the mean of a group
  skips missing values and is missing when the group has no value.
\<close>

definition numeric_cell :: "pandas_text \<Rightarrow> cell \<Rightarrow> cell" where
  "numeric_cell P v = (case to_numeric P v of None \<Rightarrow> NA | Some x \<Rightarrow> CNum x)"

definition in_range_cell :: "cell \<Rightarrow> cell" where
  "in_range_cell v = (case v of CNum x \<Rightarrow> if x < 0 \<or> x > 100 then NA else v | _ \<Rightarrow> v)"

definition float_of :: "cell \<Rightarrow> real option" where
  "float_of v = (case v of CNum x \<Rightarrow> Some x | CInt n \<Rightarrow> Some (of_int n)
     | CBool b \<Rightarrow> Some (if b then 1 else 0) | _ \<Rightarrow> None)"

definition group_values :: "row list \<Rightarrow> string \<Rightarrow> string \<Rightarrow> cell \<Rightarrow> cell list" where
  "group_values rs g c k = map (\<lambda>r. cell_of r c) (filter (\<lambda>r. cell_of r g = k) rs)"

definition mean :: "real list \<Rightarrow> real option" where
  "mean xs = (if xs = [] then None else Some (sum_list xs / real (length xs)))"

definition grp_mean :: "row list \<Rightarrow> string \<Rightarrow> row \<Rightarrow> real option" where
  "grp_mean rs c r =
     (if cell_of r ''Track'' = NA then None
      else mean (List.map_filter float_of (group_values rs ''Track'' c (cell_of r ''Track''))))"

definition fillna :: "cell \<Rightarrow> cell \<Rightarrow> cell" where
  "fillna v w = (if v = NA then w else v)"

definition impute_score :: "pandas_text \<Rightarrow> string \<Rightarrow> frame \<Rightarrow> error + frame" where
  "impute_score P c df =
     (if c \<in> set (columns df) then
        (let df1 = map_col c (numeric_cell P) df;
             df2 = map_col c in_range_cell df1
         in if ''Track'' \<in> set (columns df2)
            then Inr (set_col c (\<lambda>r. fillna (cell_of r c)
                   (case grp_mean (rows df2) c r of None \<Rightarrow> NA | Some m \<Rightarrow> CNum (round1 m))) df2)
            else Inl (KeyError ''Track''))
      else Inr df)"

text \<open>
  \<^verbatim>\<open>
  for c in boolean_cols:
      if c in df:
          df[c] = df[c].astype("string").str.upper().str.strip().map(BOOL_MAP).astype("boolean")
          grp_mode = df.groupby('Track')[c].transform(
              lambda x: x.mode(dropna=True).iloc[0] if not x.mode(dropna=True).empty else np.nan)
          df[c] = df[c].fillna(grp_mode)
  \<close>
  \<open>Series.mode\<close> returns the most frequent values in ascending order (False before
  True), so \<open>.iloc[0]\<close> is the smallest of them.
\<close>

definition decode_bool :: "pandas_text \<Rightarrow> cell \<Rightarrow> cell" where
  "decode_bool P v = (case py_str P v of None \<Rightarrow> NA
     | Some s \<Rightarrow> (case map_of BOOL_MAP (strip (upper s)) of None \<Rightarrow> NA | Some b \<Rightarrow> CBool b))"

definition bool_of :: "cell \<Rightarrow> bool option" where
  "bool_of v = (case v of CBool b \<Rightarrow> Some b | _ \<Rightarrow> None)"

definition mode :: "bool list \<Rightarrow> bool list" where
  "mode bs = (let t = count_list bs True; f = count_list bs False in
     if bs = [] then [] else if t < f then [False] else if f < t then [True] else [False, True])"

definition grp_mode :: "row list \<Rightarrow> string \<Rightarrow> row \<Rightarrow> bool option" where
  "grp_mode rs c r =
     (if cell_of r ''Track'' = NA then None
      else (case mode (List.map_filter bool_of (group_values rs ''Track'' c (cell_of r ''Track''))) of
              [] \<Rightarrow> None | m # _ \<Rightarrow> Some m))"

definition impute_bool :: "pandas_text \<Rightarrow> string \<Rightarrow> frame \<Rightarrow> error + frame" where
  "impute_bool P c df =
     (if c \<in> set (columns df) then
        (let df1 = map_col c (decode_bool P) df
         in if ''Track'' \<in> set (columns df1)
            then Inr (set_col c (\<lambda>r. fillna (cell_of r c)
                   (case grp_mode (rows df1) c r of None \<Rightarrow> NA | Some m \<Rightarrow> CBool m)) df1)
            else Inl (KeyError ''Track''))
      else Inr df)"

text \<open>\<^verbatim>\<open>df = df.dropna()\<close>: a row with a missing cell in any column is dropped.\<close>

definition complete :: "string list \<Rightarrow> row \<Rightarrow> bool" where
  "complete cs r = list_all (\<lambda>c. cell_of r c \<noteq> NA) cs"

definition dropna :: "frame \<Rightarrow> frame" where
  "dropna df = df\<lparr>rows := filter (complete (columns df)) (rows df)\<rparr>"

text \<open>The pipeline before its last step, and \<open>clean_df\<close>.\<close>

definition clean_cells :: "pandas_text \<Rightarrow> frame \<Rightarrow> error + frame" where
  "clean_cells P df =
     (let df1 = replace_special_nulls df;
          df2 = fold (normalize_str_col P) str_cols df1;
          df3 = validate_formats df2
      in case fold_err (coerce_int_col P) int_cols df3 of Inl e \<Rightarrow> Inl e | Inr df4 \<Rightarrow>
           (case fold_err (impute_score P) score_cols (validate_ids df4) of Inl e \<Rightarrow> Inl e
            | Inr df5 \<Rightarrow> fold_err (impute_bool P) boolean_cols df5))"

definition clean_df :: "pandas_text \<Rightarrow> frame \<Rightarrow> error + frame" where
  "clean_df P df = (case clean_cells P df of Inl e \<Rightarrow> Inl e | Inr df' \<Rightarrow> Inr (dropna df'))"

section \<open>Deduplication\<close>

text \<open>
  \<^verbatim>\<open>
  def drop_duplicates(df):
      if {'StudentID','Term'}.issubset(df.columns):
          df = df.sort_index()
          df = df.drop_duplicates(subset=['StudentID', 'Term', 'Track'], keep='first')
      return df
  \<close>
  \<open>sort_index\<close> orders the rows by index label. \<open>DataFrame.drop_duplicates\<close> with
  \<open>keep='first'\<close> walks the rows in order and drops every row whose values in the
  subset columns were seen before (missing values compare equal to each other); it raises
  KeyError when a subset column is absent.
\<close>

definition sort_index :: "frame \<Rightarrow> frame" where
  "sort_index df = df\<lparr>rows := sort_key label (rows df)\<rparr>"

fun keep_first :: "('a \<Rightarrow> 'k) \<Rightarrow> 'k list \<Rightarrow> 'a list \<Rightarrow> 'a list" where
  "keep_first key seen [] = []"
| "keep_first key seen (r # rs) =
     (if key r \<in> set seen then keep_first key seen rs
      else r # keep_first key (key r # seen) rs)"

definition dedup_key :: "row \<Rightarrow> cell \<times> cell \<times> cell" where
  "dedup_key r = (cell_of r ''StudentID'', cell_of r ''Term'', cell_of r ''Track'')"

definition drop_duplicates :: "frame \<Rightarrow> error + frame" where
  "drop_duplicates df =
     (if ''StudentID'' \<in> set (columns df) \<and> ''Term'' \<in> set (columns df) then
        (let df1 = sort_index df in
         if ''Track'' \<in> set (columns df1)
         then Inr (df1\<lparr>rows := keep_first dedup_key [] (rows df1)\<rparr>)
         else Inl (KeyError ''Track''))
      else Inr df)"

section \<open>Relations between frames\<close>

text \<open>
  \<open>unchanged_off S df df'\<close>: the frame \<open>df'\<close> has the columns, the number of rows and the
  labels of \<open>df\<close>, and the same cells outside the columns of \<open>S\<close>.
\<close>

definition unchanged_off :: "string set \<Rightarrow> frame \<Rightarrow> frame \<Rightarrow> bool" where
  "unchanged_off S df df' \<longleftrightarrow>
     columns df' = columns df \<and>
     list_all2 (\<lambda>r r'. label r' = label r \<and> (\<forall>c. c \<notin> S \<longrightarrow> cell_of r' c = cell_of r c))
       (rows df) (rows df')"

definition col_ok :: "(cell \<Rightarrow> bool) \<Rightarrow> string \<Rightarrow> frame \<Rightarrow> bool" where
  "col_ok Q c df \<longleftrightarrow> (\<forall>r \<in> set (rows df). Q (cell_of r c))"

section \<open>The domains of the fields\<close>

text \<open>
  The valid domain of each field after cleaning, from the data model of the
  specification: Class is two digits and a letter, Cohort is \<open>DD-DD\<close>, StudentID is a
  four-digit number, Term is 1 or 2, a score is a number from 0 to 100, IncomeStudent and
  Passed are booleans, the names and the Track are text; any other column only has to be
  populated.
\<close>

definition is_text :: "cell \<Rightarrow> bool" where
  "is_text v = (case v of Str s \<Rightarrow> True | _ \<Rightarrow> False)"

definition is_class :: "cell \<Rightarrow> bool" where
  "is_class v = (case v of Str s \<Rightarrow> fullmatch_class s | _ \<Rightarrow> False)"

definition is_cohort :: "cell \<Rightarrow> bool" where
  "is_cohort v = (case v of Str s \<Rightarrow> fullmatch_cohort s | _ \<Rightarrow> False)"

definition is_student_id :: "cell \<Rightarrow> bool" where
  "is_student_id v = (case v of CInt n \<Rightarrow> fullmatch_d4 (py_str_int n) | _ \<Rightarrow> False)"

definition is_term :: "cell \<Rightarrow> bool" where
  "is_term v = (v = CInt 1 \<or> v = CInt 2)"

definition is_score :: "cell \<Rightarrow> bool" where
  "is_score v = (case v of CNum x \<Rightarrow> 0 \<le> x \<and> x \<le> 100 | _ \<Rightarrow> False)"

definition is_bool :: "cell \<Rightarrow> bool" where
  "is_bool v = (case v of CBool b \<Rightarrow> True | _ \<Rightarrow> False)"

definition in_domain :: "string \<Rightarrow> cell \<Rightarrow> bool" where
  "in_domain c v =
     (if c = ''Class'' then is_class v
      else if c = ''Cohort'' then is_cohort v
      else if c = ''StudentID'' then is_student_id v
      else if c = ''Term'' then is_term v
      else if c \<in> set score_cols then is_score v
      else if c \<in> set boolean_cols then is_bool v
      else if c \<in> set str_cols then is_text v
      else v \<noteq> NA)"

definition na_or :: "(cell \<Rightarrow> bool) \<Rightarrow> cell \<Rightarrow> bool" where
  "na_or Q v \<longleftrightarrow> v = NA \<or> Q v"

text \<open>
  \<open>col_rel c R df df'\<close>: the two frames have the same number of rows and the same
  labels, and \<open>R\<close> relates the cells of column \<open>c\<close> row by row.
\<close>

definition col_rel :: "string \<Rightarrow> (cell \<Rightarrow> cell \<Rightarrow> bool) \<Rightarrow> frame \<Rightarrow> frame \<Rightarrow> bool" where
  "col_rel c R df df' \<longleftrightarrow>
     list_all2 (\<lambda>r r'. label r' = label r \<and> R (cell_of r c) (cell_of r' c)) (rows df) (rows df')"

text \<open>
  \<open>same_off_track A df df'\<close>: the two frames have the same columns, the same number of
  rows, the same labels and the same Track cells, and every row whose Track is not \<open>A\<close>
  is the same row in both.
\<close>

definition same_off_track :: "cell \<Rightarrow> frame \<Rightarrow> frame \<Rightarrow> bool" where
  "same_off_track A df df' \<longleftrightarrow>
     columns df' = columns df \<and>
     list_all2 (\<lambda>r r'. label r' = label r \<and> cell_of r' ''Track'' = cell_of r ''Track''
                  \<and> (cell_of r ''Track'' \<noteq> A \<longrightarrow> r' = r))
       (rows df) (rows df')"

section \<open>Imputation as the specification words it\<close>

text \<open>
  A score is valid when it reads as a number from 0 to 100. A missing score of a row is
  replaced by the mean of the valid scores of the same field in the rows of the same Track,
  rounded to one decimal; it stays missing when the Track is missing or has no valid score.
\<close>

definition valid_score :: "pandas_text \<Rightarrow> cell \<Rightarrow> real option" where
  "valid_score P v = (case to_numeric P v of None \<Rightarrow> None
     | Some x \<Rightarrow> if 0 \<le> x \<and> x \<le> 100 then Some x else None)"

definition track_valid_scores :: "pandas_text \<Rightarrow> frame \<Rightarrow> string \<Rightarrow> cell \<Rightarrow> real list" where
  "track_valid_scores P df c k =
     List.map_filter (\<lambda>r. valid_score P (cell_of r c)) (filter (\<lambda>r. cell_of r ''Track'' = k) (rows df))"

definition spec_imputed_score :: "pandas_text \<Rightarrow> frame \<Rightarrow> string \<Rightarrow> row \<Rightarrow> cell" where
  "spec_imputed_score P df c r =
     (case valid_score P (cell_of r c) of
        Some x \<Rightarrow> CNum x
      | None \<Rightarrow>
          if cell_of r ''Track'' = NA then NA
          else (case track_valid_scores P df c (cell_of r ''Track'') of
                  [] \<Rightarrow> NA
                | x # xs \<Rightarrow> CNum (round1 (sum_list (x # xs) / real (length (x # xs))))))"

text \<open>
  A boolean field is decoded by the boolean table. The specification replaces a missing
  decoded value by the most frequent decoded value of the rows of the same Track and, on a
  tie, by the one that comes first in the input (\<open>first_encountered_mode\<close>). The code
  takes, on a tie, False (\<open>smallest_mode\<close>).
\<close>

definition track_decoded :: "pandas_text \<Rightarrow> frame \<Rightarrow> string \<Rightarrow> cell \<Rightarrow> bool list" where
  "track_decoded P df c k =
     List.map_filter (\<lambda>r. bool_of (decode_bool P (cell_of r c)))
       (filter (\<lambda>r. cell_of r ''Track'' = k) (rows df))"

definition first_encountered_mode :: "bool list \<Rightarrow> bool option" where
  "first_encountered_mode bs = (case bs of [] \<Rightarrow> None
     | b # _ \<Rightarrow>
         if count_list bs False < count_list bs True then Some True
         else if count_list bs True < count_list bs False then Some False
         else Some b)"

definition smallest_mode :: "bool list \<Rightarrow> bool option" where
  "smallest_mode bs = (case bs of [] \<Rightarrow> None
     | _ # _ \<Rightarrow> Some (count_list bs False < count_list bs True))"

definition imputed_bool ::
  "(bool list \<Rightarrow> bool option) \<Rightarrow> pandas_text \<Rightarrow> frame \<Rightarrow> string \<Rightarrow> row \<Rightarrow> cell" where
  "imputed_bool most_frequent P df c r =
     (case bool_of (decode_bool P (cell_of r c)) of
        Some b \<Rightarrow> CBool b
      | None \<Rightarrow>
          if cell_of r ''Track'' = NA then NA
          else (case most_frequent (track_decoded P df c (cell_of r ''Track'')) of
                  None \<Rightarrow> NA
                | Some b \<Rightarrow> CBool b))"

section \<open>Summary statistics\<close>

text \<open>
  A summary table is a list of rows, each the value of the group key and the cells of the
  other columns. \<open>TrackStatistics\<close>, \<open>CohortStatistics\<close> and \<open>IncomeStatusStatistics\<close> are
  the same methods over the group columns Track, Cohort and IncomeStudent; the model
  takes the group column \<open>g\<close> as an argument.

  \<open>groupby\<close> orders the groups by their key (\<open>sort=True\<close>), ascending: booleans False
  before True, numbers by value, texts by code point. A column of pandas holds one kind
  of value; \<open>sort_rank\<close> also fixes an order between the kinds (numbers before texts,
  missing last).
\<close>

type_synonym table = "(cell \<times> cell list) list"

definition sort_rank :: "cell \<Rightarrow> nat \<times> bool \<times> real \<times> string" where
  "sort_rank v = (case v of
       CBool b \<Rightarrow> (0, b, 0, [])
     | CInt n \<Rightarrow> (1, False, of_int n, [])
     | CNum x \<Rightarrow> (1, False, x, [])
     | Str s \<Rightarrow> (2, False, 0, s)
     | NA \<Rightarrow> (3, False, 0, []))"

definition group_keys :: "bool \<Rightarrow> string \<Rightarrow> frame \<Rightarrow> cell list" where
  "group_keys drop_missing g df =
     sort_key sort_rank (remdups (filter (\<lambda>k. \<not> drop_missing \<or> k \<noteq> NA) (column g df)))"

text \<open>
  \<^verbatim>\<open>
  def nb_students(self):
      return self.df['Track'].value_counts().rename_axis('Track').reset_index(name='Nb Students')
  \<close>
  \<open>value_counts\<close> leaves missing values out, counts each value and orders the values by
  descending count; the model keeps values of equal count in the order of their first
  appearance.
\<close>

definition first_appearance :: "'a list \<Rightarrow> 'a list" where
  "first_appearance xs = rev (remdups (rev xs))"

definition value_counts :: "cell list \<Rightarrow> (cell \<times> nat) list" where
  "value_counts vs =
     (let present = filter (\<lambda>k. k \<noteq> NA) vs
      in sort_key (\<lambda>(k, n). - int n) (map (\<lambda>k. (k, count_list present k)) (first_appearance present)))"

definition nb_students :: "string \<Rightarrow> frame \<Rightarrow> error + table" where
  "nb_students g df =
     (if g \<in> set (columns df)
      then Inr (map (\<lambda>(k, n). (k, [CInt (int n)])) (value_counts (column g df)))
      else Inl (KeyError g))"

text \<open>
  \<^verbatim>\<open>
  def avg_scores(self):
      return self.df.groupby('Track')[['Math', 'English', 'Science', 'History']].mean()
                 .rename_axis('Track').reset_index()
  def avg_attendance(self):
      return self.df.groupby('Track')['Attendance (%)'].mean().rename_axis('Track').reset_index()
  def avg_project_scores(self):
      return self.df.groupby('Track')['ProjectScore'].mean().rename_axis('Track').reset_index()
  def pass_rate(self):
      return (self.df.groupby('Track')['Passed (Y/N)'].mean() * 100)
                 .rename_axis('Track').reset_index(name='Pass Rate (%)')
  \<close>
  \<open>groupby(g)[cs]\<close> raises KeyError when \<open>g\<close> or a column of \<open>cs\<close> is absent; the mean
  of a column that holds text raises TypeError. The mean of a group skips missing values,
  counts a boolean as 0 or 1, and is missing for a group without values.
\<close>

definition group_mean :: "string \<Rightarrow> string \<Rightarrow> frame \<Rightarrow> cell \<Rightarrow> cell" where
  "group_mean g c df k =
     (case mean (List.map_filter float_of (group_values (rows df) g c k)) of
        None \<Rightarrow> NA | Some m \<Rightarrow> CNum m)"

definition groupby_mean :: "string \<Rightarrow> string list \<Rightarrow> frame \<Rightarrow> error + table" where
  "groupby_mean g cs df =
     (if g \<notin> set (columns df) then Inl (KeyError g)
      else (case filter (\<lambda>c. c \<notin> set (columns df)) cs of
              c # _ \<Rightarrow> Inl (KeyError c)
            | [] \<Rightarrow>
                if list_ex (\<lambda>c. list_ex is_text (column c df)) cs then Inl TypeError
                else Inr (map (\<lambda>k. (k, map (\<lambda>c. group_mean g c df k) cs)) (group_keys True g df))))"

definition avg_scores :: "string \<Rightarrow> frame \<Rightarrow> error + table" where
  "avg_scores g df = groupby_mean g [''Math'', ''English'', ''Science'', ''History''] df"

definition avg_attendance :: "string \<Rightarrow> frame \<Rightarrow> error + table" where
  "avg_attendance g df = groupby_mean g [''Attendance (%)''] df"

definition avg_project_scores :: "string \<Rightarrow> frame \<Rightarrow> error + table" where
  "avg_project_scores g df = groupby_mean g [''ProjectScore''] df"

definition times_100 :: "cell \<Rightarrow> cell" where
  "times_100 v = (case v of CNum x \<Rightarrow> CNum (x * 100) | _ \<Rightarrow> v)"

definition pass_rate :: "string \<Rightarrow> frame \<Rightarrow> error + table" where
  "pass_rate g df = map_sum id (map (\<lambda>(k, vs). (k, map times_100 vs)))
     (groupby_mean g [''Passed (Y/N)''] df)"

text \<open>
  \<^verbatim>\<open>
  def corr_attendance_project(self):
      rows = []
      for track, g in self.df.groupby('Track', dropna=False):
          corr = g[['Attendance (%)', 'ProjectScore']].corr().iloc[0, 1]
          rows.append({'Track': track, 'Correlation (%)': 100 * corr})
      return pd.DataFrame(rows)
  \<close>
  \<open>DataFrame.corr()\<close> is the Pearson correlation over the rows where both values are
  present (\<open>min_periods=1\<close>): with the sums of squared deviations \<open>ssqdm_x\<close>,
  \<open>ssqdm_y\<close> and the sum of the products of the deviations \<open>covxy\<close>, it is
  \<open>covxy / sqrt(ssqdm_x * ssqdm_y)\<close> when that divisor is not zero and missing (NaN)
  otherwise. Converting a text to float raises ValueError. The loop body, and so its
  KeyError for an absent column, only runs when there is a group.
\<close>

definition complete_pairs :: "cell list \<Rightarrow> cell list \<Rightarrow> (real \<times> real) list" where
  "complete_pairs xs ys =
     List.map_filter (\<lambda>(x, y). case (float_of x, float_of y) of
        (Some a, Some b) \<Rightarrow> Some (a, b) | _ \<Rightarrow> None) (zip xs ys)"

definition nancorr :: "(real \<times> real) list \<Rightarrow> real option" where
  "nancorr ps =
     (let nobs = length ps in
      if nobs < 1 then None
      else
        (let meanx = sum_list (map fst ps) / real nobs;
             meany = sum_list (map snd ps) / real nobs;
             ssqdm_x = (\<Sum>(x, y) \<leftarrow> ps. (x - meanx) * (x - meanx));
             ssqdm_y = (\<Sum>(x, y) \<leftarrow> ps. (y - meany) * (y - meany));
             covxy = (\<Sum>(x, y) \<leftarrow> ps. (x - meanx) * (y - meany));
             divisor = sqrt (ssqdm_x * ssqdm_y)
         in if divisor \<noteq> 0 then Some (covxy / divisor) else None))"

definition group_pairs :: "frame \<Rightarrow> cell \<Rightarrow> (real \<times> real) list" where
  "group_pairs df k =
     complete_pairs (group_values (rows df) ''Track'' ''Attendance (%)'' k)
       (group_values (rows df) ''Track'' ''ProjectScore'' k)"

definition corr_attendance_project :: "frame \<Rightarrow> error + table" where
  "corr_attendance_project df =
     (if ''Track'' \<notin> set (columns df) then Inl (KeyError ''Track'')
      else if group_keys False ''Track'' df = [] then Inr []
      else if ''Attendance (%)'' \<notin> set (columns df) then Inl (KeyError ''Attendance (%)'')
      else if ''ProjectScore'' \<notin> set (columns df) then Inl (KeyError ''ProjectScore'')
      else if list_ex is_text (column ''Attendance (%)'' df)
              \<or> list_ex is_text (column ''ProjectScore'' df) then Inl ValueError
      else Inr (map (\<lambda>k. (k, [case nancorr (group_pairs df k) of
                                  None \<Rightarrow> NA | Some r \<Rightarrow> CNum (100 * r)]))
                  (group_keys False ''Track'' df)))"

text \<open>
  \<^verbatim>\<open>
  def _round_numeric(_df, ndigits=1):
      out = _df.copy()
      num_cols = out.select_dtypes(include=[np.number, "Float64", "Int64"]).columns
      if len(num_cols):
          out[num_cols] = out[num_cols].astype(float).round(ndigits)
      return out
  \<close>
  Every number of the table, in the key column too, is rounded to one decimal; texts,
  booleans and missing values stay.
\<close>

definition round_cell :: "cell \<Rightarrow> cell" where
  "round_cell v = (case v of CNum x \<Rightarrow> CNum (round1 x) | CInt n \<Rightarrow> CNum (round1 (of_int n)) | _ \<Rightarrow> v)"

definition round_numeric :: "table \<Rightarrow> table" where
  "round_numeric t = map (\<lambda>(k, vs). (round_cell k, map round_cell vs)) t"

text \<open>
  \<open>compute_all_stats\<close> computes the sixteen tables in this order; the first computation
  that raises ends it.
\<close>

fun collect :: "(string \<times> (error + 'a)) list \<Rightarrow> error + (string \<times> 'a) list" where
  "collect [] = Inr []"
| "collect ((name, r) # rest) =
     (case r of Inl e \<Rightarrow> Inl e
      | Inr t \<Rightarrow> (case collect rest of Inl e \<Rightarrow> Inl e | Inr ts \<Rightarrow> Inr ((name, t) # ts)))"

definition rounded :: "error + table \<Rightarrow> error + table" where
  "rounded r = map_sum id round_numeric r"

definition compute_all_stats :: "frame \<Rightarrow> error + (string \<times> table) list" where
  "compute_all_stats df = collect [
     (''Track - Counts'', nb_students ''Track'' df),
     (''Track - Avg Scores'', rounded (avg_scores ''Track'' df)),
     (''Track - Attendance'', rounded (avg_attendance ''Track'' df)),
     (''Track - Project'', rounded (avg_project_scores ''Track'' df)),
     (''Track - Pass Rate'', rounded (pass_rate ''Track'' df)),
     (''Track - Corr (%)'', rounded (corr_attendance_project df)),
     (''Cohort - Counts'', nb_students ''Cohort'' df),
     (''Cohort - Avg Scores'', rounded (avg_scores ''Cohort'' df)),
     (''Cohort - Attendance'', rounded (avg_attendance ''Cohort'' df)),
     (''Cohort - Project'', rounded (avg_project_scores ''Cohort'' df)),
     (''Cohort - Pass Rate'', rounded (pass_rate ''Cohort'' df)),
     (''Income - Counts'', nb_students ''IncomeStudent'' df),
     (''Income - Avg Scores'', rounded (avg_scores ''IncomeStudent'' df)),
     (''Income - Attendance'', rounded (avg_attendance ''IncomeStudent'' df)),
     (''Income - Project'', rounded (avg_project_scores ''IncomeStudent'' df)),
     (''Income - Pass Rate'', rounded (pass_rate ''IncomeStudent'' df))]"

text \<open>The tables of counts, and the counts of such a table.\<close>

definition counts_tables :: "string list" where
  "counts_tables = [''Track - Counts'', ''Cohort - Counts'', ''Income - Counts'']"

definition counts_column :: "table \<Rightarrow> int list" where
  "counts_column t = map (\<lambda>(k, vs). case vs of [CInt n] \<Rightarrow> n | _ \<Rightarrow> 0) t"

text \<open>
  The Pearson correlation as the specification has it: the sample covariance over the
  product of the sample standard deviations, undefined for fewer than two rows or a zero
  variance; reported times 100, rounded to one decimal.
\<close>

definition variance :: "real list \<Rightarrow> real" where
  "variance xs = (let m = sum_list xs / real (length xs)
     in (\<Sum>x \<leftarrow> xs. (x - m) * (x - m)) / (real (length xs) - 1))"

definition covariance :: "(real \<times> real) list \<Rightarrow> real" where
  "covariance ps = (let mx = sum_list (map fst ps) / real (length ps);
                        my = sum_list (map snd ps) / real (length ps)
     in (\<Sum>(x, y) \<leftarrow> ps. (x - mx) * (y - my)) / (real (length ps) - 1))"

definition pearson_r :: "(real \<times> real) list \<Rightarrow> real" where
  "pearson_r ps = covariance ps / (sqrt (variance (map fst ps)) * sqrt (variance (map snd ps)))"

definition spec_correlation_cell :: "(real \<times> real) list \<Rightarrow> cell" where
  "spec_correlation_cell ps =
     (if length ps < 2 \<or> variance (map fst ps) = 0 \<or> variance (map snd ps) = 0 then NA
      else CNum (round1 (100 * pearson_r ps)))"

subsection \<open>Example frames\<close>

definition dup_r0 :: row where
  "dup_r0 = mk_row 0 [(''StudentID'', CInt 1001), (''Term'', CInt 1), (''Track'', Str ''Alpha''),
     (''Math'', CNum 50)]"

definition dup_r1 :: row where
  "dup_r1 = mk_row 1 [(''StudentID'', CInt 1002), (''Term'', CInt 1), (''Track'', Str ''Alpha''),
     (''Math'', CNum 60)]"

definition dup_r2 :: row where
  "dup_r2 = mk_row 2 [(''StudentID'', CInt 1001), (''Term'', CInt 1), (''Track'', Str ''Alpha''),
     (''Math'', CNum 70)]"

definition dup_frame :: frame where
  "dup_frame = \<lparr>columns = [''StudentID'', ''Term'', ''Track'', ''Math''],
                 rows = [dup_r0, dup_r1, dup_r2]\<rparr>"

definition dup_frame_clean :: frame where
  "dup_frame_clean = \<lparr>columns = [''StudentID'', ''Term'', ''Track'', ''Math''],
                       rows = [dup_r0, dup_r1]\<rparr>"

definition no_term_frame :: frame where
  "no_term_frame = \<lparr>columns = [''StudentID'', ''Track'', ''Math''],
                     rows = [dup_r2, dup_r0, dup_r1]\<rparr>"

text \<open>
  An instance of the pandas conversions for concrete runs: it reads unsigned decimal
  integers and writes a whole float as Python does (\<open>85.0\<close>). The frames below hold no
  other numeric text, and no float where its text is read.
\<close>

definition digit_value :: "char \<Rightarrow> int" where
  "digit_value c = (case map_of (zip digits [0, 1, 2, 3, 4, 5, 6, 7, 8, 9]) c of None \<Rightarrow> 0 | Some d \<Rightarrow> d)"

definition decimal_value :: "string \<Rightarrow> int" where
  "decimal_value s = fold (\<lambda>c n. 10 * n + digit_value c) s 0"

definition decimal_text :: "string \<Rightarrow> real option" where
  "decimal_text s =
     (if s \<noteq> [] \<and> list_all is_digit s then Some (of_int (decimal_value s)) else None)"

definition plain_text :: pandas_text where
  "plain_text = \<lparr>parse_number = decimal_text, float_text = (\<lambda>x. py_str_int \<lfloor>x\<rfloor> @ ''.0'')\<rparr>"

text \<open>
  Two sheets, Alpha (three rows, one with the StudentID \<open>12A4\<close>) and Beta (two rows),
  as the loader merges them.
\<close>

definition sheet_cols :: "string list" where
  "sheet_cols = [''StudentID'', ''Class'', ''Term'', ''Math'', ''Passed (Y/N)'', ''Track'']"

definition sheet_row :: "nat \<Rightarrow> cell list \<Rightarrow> row" where
  "sheet_row l vs = mk_row l (zip sheet_cols vs)"

definition sheet :: "(nat \<times> cell list) list \<Rightarrow> frame" where
  "sheet t = \<lparr>columns = sheet_cols, rows = map (\<lambda>(l, vs). sheet_row l vs) t\<rparr>"

definition two_sheets :: frame where
  "two_sheets = sheet [
     (0, [CInt 1001, Str ''10a'', CInt 1, CInt 80, Str ''Y'', Str ''alpha'']),
     (1, [Str ''12A4'', Str ''10b'', CInt 1, CInt 50, Str ''N'', Str ''alpha'']),
     (2, [Str ''0123'', Str '' 11C'', Str ''2'', Str ''N/A'', Str ''bogus'', Str ''alpha'']),
     (3, [CInt 1004, Str ''11C'', Str ''2'', Str ''N/A'', Str ''bogus'', Str ''alpha'']),
     (4, [CInt 2001, Str ''12A'', CInt 1, CInt 40, Str ''yes'', Str ''beta'']),
     (5, [CInt 2002, Str ''12B'', CInt 2, CInt 250, CInt 0, Str ''beta''])]"

definition two_sheets_clean :: frame where
  "two_sheets_clean = sheet [
     (0, [CInt 1001, Str ''10A'', CInt 1, CNum 80, CBool True, Str ''Alpha'']),
     (3, [CInt 1004, Str ''11C'', CInt 2, CNum 65, CBool False, Str ''Alpha'']),
     (4, [CInt 2001, Str ''12A'', CInt 1, CNum 40, CBool True, Str ''Beta'']),
     (5, [CInt 2002, Str ''12B'', CInt 2, CNum 40, CBool False, Str ''Beta''])]"

text \<open>
  One track with the attendances 80, 90 and a missing one, and a track without any valid
  attendance.
\<close>

definition attendance_frame :: frame where
  "attendance_frame = \<lparr>columns = [''Track'', ''Attendance (%)''], rows = [
     mk_row 0 [(''Track'', Str ''Alpha''), (''Attendance (%)'', CInt 80)],
     mk_row 1 [(''Track'', Str ''Alpha''), (''Attendance (%)'', CInt 90)],
     mk_row 2 [(''Track'', Str ''Alpha''), (''Attendance (%)'', NA)],
     mk_row 3 [(''Track'', Str ''Beta''), (''Attendance (%)'', CInt 120)],
     mk_row 4 [(''Track'', Str ''Beta''), (''Attendance (%)'', Str ''absent'')]]\<rparr>"

text \<open>
  One track with the raw values Y, N, FALSE and bogus in Passed (Y/N); one track with a
  tie (Y, N, bogus); one track where nothing decodes.
\<close>

definition passed_frame :: frame where
  "passed_frame = \<lparr>columns = [''Track'', ''Passed (Y/N)''], rows = [
     mk_row 0 [(''Track'', Str ''Alpha''), (''Passed (Y/N)'', Str ''Y'')],
     mk_row 1 [(''Track'', Str ''Alpha''), (''Passed (Y/N)'', Str ''N'')],
     mk_row 2 [(''Track'', Str ''Alpha''), (''Passed (Y/N)'', Str ''FALSE'')],
     mk_row 3 [(''Track'', Str ''Alpha''), (''Passed (Y/N)'', Str ''bogus'')],
     mk_row 4 [(''Track'', Str ''Gamma''), (''Passed (Y/N)'', Str ''maybe'')]]\<rparr>"

definition tie_frame :: frame where
  "tie_frame = \<lparr>columns = [''Track'', ''Passed (Y/N)''], rows = [
     mk_row 0 [(''Track'', Str ''Beta''), (''Passed (Y/N)'', Str ''Y'')],
     mk_row 1 [(''Track'', Str ''Beta''), (''Passed (Y/N)'', Str ''N'')],
     mk_row 2 [(''Track'', Str ''Beta''), (''Passed (Y/N)'', Str ''bogus'')]]\<rparr>"

text \<open>Two tracks with one missing Math score each.\<close>

definition local_frame :: frame where
  "local_frame = \<lparr>columns = [''Math'', ''Track''], rows = [
     mk_row 0 [(''Math'', CInt 80), (''Track'', Str ''alpha'')],
     mk_row 1 [(''Math'', NA), (''Track'', Str ''alpha'')],
     mk_row 2 [(''Math'', CInt 40), (''Track'', Str ''beta'')],
     mk_row 3 [(''Math'', Str ''-''), (''Track'', Str ''beta'')]]\<rparr>"

definition local_clean :: frame where
  "local_clean = \<lparr>columns = [''Math'', ''Track''], rows = [
     mk_row 0 [(''Math'', CNum 80), (''Track'', Str ''Alpha'')],
     mk_row 1 [(''Math'', CNum 80), (''Track'', Str ''Alpha'')],
     mk_row 2 [(''Math'', CNum 40), (''Track'', Str ''Beta'')],
     mk_row 3 [(''Math'', CNum 40), (''Track'', Str ''Beta'')]]\<rparr>"

definition local_clean_changed :: frame where
  "local_clean_changed = \<lparr>columns = [''Math'', ''Track''], rows = [
     mk_row 0 [(''Math'', CNum 60), (''Track'', Str ''Alpha'')],
     mk_row 1 [(''Math'', CNum 60), (''Track'', Str ''Alpha'')],
     mk_row 2 [(''Math'', CNum 40), (''Track'', Str ''Beta'')],
     mk_row 3 [(''Math'', CNum 40), (''Track'', Str ''Beta'')]]\<rparr>"

text \<open>
  A cleaned frame for the summary tables: Beta comes first in the input and has one record,
  Alpha has three.
\<close>

definition stats_cols :: "string list" where
  "stats_cols = [''Track'', ''Cohort'', ''IncomeStudent'', ''Math'', ''English'', ''Science'',
     ''History'', ''Attendance (%)'', ''ProjectScore'', ''Passed (Y/N)'']"

definition stats_frame :: frame where
  "stats_frame = \<lparr>columns = stats_cols, rows = map (\<lambda>(l, vs). mk_row l (zip stats_cols vs)) [
     (0, [Str ''Beta'', Str ''23-24'', CBool True, CNum 50, CNum 60, CNum 70, CNum 80,
          CNum 75, CNum 65, CBool True]),
     (1, [Str ''Alpha'', Str ''23-24'', CBool False, CNum 60, CNum 70, CNum 80, CNum 90,
          CNum 80, CNum 70, CBool True]),
     (2, [Str ''Alpha'', Str ''22-23'', CBool True, CNum 70, CNum 80, CNum 90, CNum 100,
          CNum 85, CNum 80, CBool False]),
     (3, [Str ''Alpha'', Str ''22-23'', CBool False, CNum 80, CNum 80.5, CNum 70, CNum 80,
          CNum 90, CNum 90, CBool True])]\<rparr>"

definition table :: "frame \<Rightarrow> cell list list" where
  "table df = map (\<lambda>r. map (cell_of r) (columns df)) (rows df)"

section \<open>Unfolding the definitions on concrete frames\<close>

lemmas sheet_defs = sheet_def sheet_row_def sheet_cols_def mk_row_def

lemmas text_defs = is_space_def is_digit_def is_upper_def is_lower_def to_upper_def to_lower_def
  whitespace_def digits_def ascii_uppercase_def ascii_lowercase_def strip_def upper_def title_def
  py_str_def py_str_int_def digit_char_def str_nat.simps
  fullmatch_class_def fullmatch_cohort_def fullmatch_d4_def

lemmas number_defs = to_numeric_def plain_text_def decimal_text_def decimal_value_def
  digit_value_def digits_def is_digit_def is_whole_def to_Int64_def round1_def rint_def mean_def
  float_of_def map_filter_simps

lemmas column_defs = map_col_def set_col_def cell_of_def Let_def

lemmas clean_defs = clean_df_def clean_cells_def
  replace_special_nulls_def replace_null_def SPECIAL_NULLS_def str_cols_def normalize_str_col_def
  normalize_text_def validate_formats_def keep_matching_def int_cols_def coerce_int_col_def
  validate_ids_def valid_student_id_def valid_term_def score_cols_def impute_score_def
  numeric_cell_def in_range_cell_def grp_mean_def group_values_def fillna_def boolean_cols_def
  impute_bool_def decode_bool_def BOOL_MAP_def grp_mode_def mode_def bool_of_def dropna_def
  complete_def

section \<open>Properties of the cleaning pipeline\<close>

subsection \<open>Steps and the columns they touch\<close>

lemma cell_of_update [simp]:
  "cell_of (r\<lparr>cells := AList.update c w (cells r)\<rparr>) c' = (if c' = c then w else cell_of r c')"
  by (simp add: cell_of_def update_conv')

lemma cell_of_replace_null [simp]:
  "cell_of (r\<lparr>cells := map (\<lambda>(k, v). (k, replace_null v)) (cells r)\<rparr>) c = replace_null (cell_of r c)"
  by (simp add: cell_of_def map_of_map replace_null_def split: option.splits)

lemma columns_set_col [simp]: "columns (set_col c F df) = columns df"
  by (simp add: set_col_def)

lemma rows_set_col [simp]:
  "rows (set_col c F df) = map (\<lambda>r. r\<lparr>cells := AList.update c (F r) (cells r)\<rparr>) (rows df)"
  by (simp add: set_col_def)

lemma columns_map_col [simp]: "columns (map_col c f df) = columns df"
  by (simp add: map_col_def)

lemma rows_map_col [simp]:
  "rows (map_col c f df) = map (\<lambda>r. r\<lparr>cells := AList.update c (f (cell_of r c)) (cells r)\<rparr>) (rows df)"
  by (simp add: map_col_def)

lemma unchanged_off_refl [simp]: "unchanged_off S df df"
  by (simp add: unchanged_off_def list_all2_refl)

lemma unchanged_off_trans:
  "unchanged_off S df1 df2 \<Longrightarrow> unchanged_off T df2 df3 \<Longrightarrow> unchanged_off (S \<union> T) df1 df3"
  unfolding unchanged_off_def
  by (auto simp: list_all2_conv_all_nth)

lemma unchanged_off_mono:
  assumes "unchanged_off S df df'" and "S \<subseteq> T"
  shows "unchanged_off T df df'"
proof -
  from assms(1) have c: "columns df' = columns df"
    and l: "list_all2 (\<lambda>r r'. label r' = label r \<and> (\<forall>c. c \<notin> S \<longrightarrow> cell_of r' c = cell_of r c))
       (rows df) (rows df')"
    by (auto simp: unchanged_off_def)
  from l have "list_all2 (\<lambda>r r'. label r' = label r \<and> (\<forall>c. c \<notin> T \<longrightarrow> cell_of r' c = cell_of r c))
       (rows df) (rows df')"
    by (rule list_all2_mono) (use assms(2) in auto)
  with c show ?thesis by (simp add: unchanged_off_def)
qed

lemma unchanged_off_set_col: "unchanged_off {c} df (set_col c F df)"
  by (simp add: unchanged_off_def list_all2_map2 list_all2_refl)

lemma unchanged_off_map_col: "unchanged_off {c} df (map_col c f df)"
  by (simp add: map_col_def unchanged_off_set_col)

lemma unchanged_off_columns: "unchanged_off S df df' \<Longrightarrow> columns df' = columns df"
  by (simp add: unchanged_off_def)

lemma unchanged_off_labels: "unchanged_off S df df' \<Longrightarrow> map label (rows df') = map label (rows df)"
  unfolding unchanged_off_def
  by (auto simp: list_eq_iff_nth_eq list_all2_conv_all_nth)

lemma col_ok_unchanged:
  assumes "unchanged_off S df df'" and "c \<notin> S" and "col_ok Q c df"
  shows "col_ok Q c df'"
  unfolding col_ok_def
proof
  fix r' assume "r' \<in> set (rows df')"
  then obtain j where j: "j < length (rows df')" "r' = rows df' ! j"
    by (auto simp: in_set_conv_nth)
  from assms(1) have l: "length (rows df) = length (rows df')"
    and c: "cell_of (rows df' ! j) c = cell_of (rows df ! j) c"
    using j(1) assms(2) by (auto simp: unchanged_off_def list_all2_conv_all_nth)
  from l j(1) have "rows df ! j \<in> set (rows df)" by simp
  with assms(3) have "Q (cell_of (rows df ! j) c)" by (simp add: col_ok_def)
  with c j(2) show "Q (cell_of r' c)" by simp
qed

lemma col_ok_set_col: "(\<And>r. r \<in> set (rows df) \<Longrightarrow> Q (F r)) \<Longrightarrow> col_ok Q c (set_col c F df)"
  by (auto simp: col_ok_def)

lemma col_ok_map_col: "(\<And>v. Q (f v)) \<Longrightarrow> col_ok Q c (map_col c f df)"
  by (auto simp: col_ok_def)

lemma fold_err_touch:
  assumes step: "\<And>c df df'. f c df = Inr df' \<Longrightarrow>
      unchanged_off {c} df df' \<and> (c \<in> set (columns df) \<longrightarrow> col_ok Q c df')"
    and "fold_err f cs df = Inr df'"
  shows "unchanged_off (set cs) df df' \<and> (\<forall>c \<in> set cs. c \<in> set (columns df) \<longrightarrow> col_ok Q c df')"
  using assms(2)
proof (induction cs arbitrary: df)
  case Nil
  then show ?case by simp
next
  case (Cons x xs)
  from Cons.prems obtain d where d: "f x df = Inr d" and r: "fold_err f xs d = Inr df'"
    by (auto split: sum.splits)
  from step [OF d] have u1: "unchanged_off {x} df d"
    and q1: "x \<in> set (columns df) \<longrightarrow> col_ok Q x d" by auto
  from Cons.IH [OF r] have u2: "unchanged_off (set xs) d df'"
    and q2: "\<forall>c \<in> set xs. c \<in> set (columns d) \<longrightarrow> col_ok Q c df'" by auto
  from unchanged_off_trans [OF u1 u2] have u: "unchanged_off (set (x # xs)) df df'" by simp
  have cols: "columns d = columns df" by (rule unchanged_off_columns [OF u1])
  have "col_ok Q c df'" if c: "c \<in> set (x # xs)" "c \<in> set (columns df)" for c
  proof (cases "c \<in> set xs")
    case True
    with q2 c(2) cols show ?thesis by simp
  next
    case False
    with c(1) have cx: "c = x" by simp
    with q1 c(2) have "col_ok Q c d" by simp
    from col_ok_unchanged [OF u2 False this] show ?thesis .
  qed
  with u show ?case by blast
qed

lemma fold_as_fold_err: "fold_err (\<lambda>c d. Inr (f c d)) cs df = Inr (fold f cs df)"
  by (induction cs arbitrary: df) auto

lemma fold_touch:
  assumes "\<And>c df. unchanged_off {c} df (f c df) \<and> (c \<in> set (columns df) \<longrightarrow> col_ok Q c (f c df))"
  shows "unchanged_off (set cs) df (fold f cs df)
     \<and> (\<forall>c \<in> set cs. c \<in> set (columns df) \<longrightarrow> col_ok Q c (fold f cs df))"
  by (rule fold_err_touch [where f = "\<lambda>c d. Inr (f c d)"]) (use assms in \<open>auto simp: fold_as_fold_err\<close>)

subsection \<open>What each step establishes\<close>

lemma columns_replace_special_nulls [simp]: "columns (replace_special_nulls df) = columns df"
  by (simp add: replace_special_nulls_def)

lemma labels_replace_special_nulls [simp]:
  "map label (rows (replace_special_nulls df)) = map label (rows df)"
  by (simp add: replace_special_nulls_def)

lemma normalize_str_col_step:
  "unchanged_off {c} df (normalize_str_col P c df)
   \<and> (c \<in> set (columns df) \<longrightarrow> col_ok (na_or is_text) c (normalize_str_col P c df))"
  by (auto simp: normalize_str_col_def unchanged_off_map_col normalize_text_def na_or_def is_text_def
      intro!: col_ok_map_col split: option.splits)

lemma validate_formats_step:
  "unchanged_off {''Class'', ''Cohort''} df (validate_formats df)
   \<and> (''Class'' \<in> set (columns df) \<longrightarrow> col_ok (na_or is_class) ''Class'' (validate_formats df))
   \<and> (''Cohort'' \<in> set (columns df) \<longrightarrow> col_ok (na_or is_cohort) ''Cohort'' (validate_formats df))"
proof -
  let ?d1 = "if ''Class'' \<in> set (columns df)
             then map_col ''Class'' (keep_matching fullmatch_class) df else df"
  have u1: "unchanged_off {''Class''} df ?d1" by (simp add: unchanged_off_map_col)
  have q1: "''Class'' \<in> set (columns df) \<longrightarrow> col_ok (na_or is_class) ''Class'' ?d1"
    by (auto intro!: col_ok_map_col simp: keep_matching_def na_or_def is_class_def split: cell.splits)
  have v: "validate_formats df = (if ''Cohort'' \<in> set (columns ?d1)
      then map_col ''Cohort'' (keep_matching fullmatch_cohort) ?d1 else ?d1)"
    by (simp add: validate_formats_def Let_def)
  have u2: "unchanged_off {''Cohort''} ?d1 (validate_formats df)"
    unfolding v by (simp add: unchanged_off_map_col)
  have q2: "''Cohort'' \<in> set (columns df) \<longrightarrow> col_ok (na_or is_cohort) ''Cohort'' (validate_formats df)"
    unfolding v
    by (auto intro!: col_ok_map_col simp: keep_matching_def na_or_def is_cohort_def split: cell.splits)
  from unchanged_off_trans [OF u1 u2]
  have u: "unchanged_off {''Class'', ''Cohort''} df (validate_formats df)"
    by (simp add: insert_commute)
  have "col_ok (na_or is_class) ''Class'' (validate_formats df)" if "''Class'' \<in> set (columns df)"
    by (rule col_ok_unchanged [OF u2]) (use q1 that in auto)
  with u q2 show ?thesis by blast
qed

lemma coerce_int_col_step:
  "coerce_int_col P c df = Inr df' \<Longrightarrow> unchanged_off {c} df df'"
  by (auto simp: coerce_int_col_def unchanged_off_map_col split: if_splits)

lemma validate_ids_step:
  "unchanged_off {''StudentID'', ''Term''} df (validate_ids df)
   \<and> (''StudentID'' \<in> set (columns df) \<longrightarrow> col_ok (na_or is_student_id) ''StudentID'' (validate_ids df))
   \<and> (''Term'' \<in> set (columns df) \<longrightarrow> col_ok (na_or is_term) ''Term'' (validate_ids df))"
proof -
  let ?d1 = "if ''StudentID'' \<in> set (columns df)
             then map_col ''StudentID'' valid_student_id df else df"
  have u1: "unchanged_off {''StudentID''} df ?d1" by (simp add: unchanged_off_map_col)
  have q1: "''StudentID'' \<in> set (columns df) \<longrightarrow> col_ok (na_or is_student_id) ''StudentID'' ?d1"
    by (auto intro!: col_ok_map_col simp: valid_student_id_def na_or_def is_student_id_def
        split: cell.splits)
  have v: "validate_ids df = (if ''Term'' \<in> set (columns ?d1)
      then map_col ''Term'' valid_term ?d1 else ?d1)"
    by (simp add: validate_ids_def Let_def)
  have u2: "unchanged_off {''Term''} ?d1 (validate_ids df)"
    unfolding v by (simp add: unchanged_off_map_col)
  have q2: "''Term'' \<in> set (columns df) \<longrightarrow> col_ok (na_or is_term) ''Term'' (validate_ids df)"
    unfolding v
    by (auto intro!: col_ok_map_col simp: valid_term_def na_or_def is_term_def)
  from unchanged_off_trans [OF u1 u2]
  have u: "unchanged_off {''StudentID'', ''Term''} df (validate_ids df)"
    by (simp add: insert_commute)
  have "col_ok (na_or is_student_id) ''StudentID'' (validate_ids df)"
    if "''StudentID'' \<in> set (columns df)"
    by (rule col_ok_unchanged [OF u2]) (use q1 that in auto)
  with u q2 show ?thesis by blast
qed

lemma sum_list_lower: "\<forall>x \<in> set xs. a \<le> x \<Longrightarrow> a * real (length xs) \<le> sum_list xs"
  for a :: real
proof (induction xs)
  case Nil
  show ?case by simp
next
  case (Cons y ys)
  then have "a \<le> y" and "a * real (length ys) \<le> sum_list ys" by auto
  then show ?case by (simp add: algebra_simps)
qed

lemma sum_list_upper: "\<forall>x \<in> set xs. x \<le> b \<Longrightarrow> sum_list xs \<le> b * real (length xs)"
  for b :: real
proof (induction xs)
  case Nil
  show ?case by simp
next
  case (Cons y ys)
  then have "y \<le> b" and "sum_list ys \<le> b * real (length ys)" by auto
  then show ?case by (simp add: algebra_simps)
qed

lemma mean_bounds:
  assumes "mean xs = Some m" and "\<And>x. x \<in> set xs \<Longrightarrow> a \<le> x \<and> x \<le> b"
  shows "a \<le> m \<and> m \<le> b"
proof -
  from assms(1) have ne: "xs \<noteq> []" and m: "m = sum_list xs / real (length xs)"
    by (auto simp: mean_def split: if_splits)
  from ne have pos: "0 < real (length xs)" by simp
  from sum_list_lower [of xs a] assms(2) have "a * real (length xs) \<le> sum_list xs" by blast
  with pos have 1: "a \<le> m" unfolding m by (simp add: pos_le_divide_eq)
  from sum_list_upper [of xs b] assms(2) have "sum_list xs \<le> b * real (length xs)" by blast
  with pos have 2: "m \<le> b" unfolding m by (simp add: pos_divide_le_eq)
  from 1 2 show ?thesis ..
qed

lemma rint_lower:
  assumes "of_int a \<le> x"
  shows "a \<le> rint x"
proof -
  from assms have "a \<le> \<lfloor>x\<rfloor>" by (simp add: le_floor_iff)
  then show ?thesis by (auto simp: rint_def Let_def)
qed

lemma rint_upper:
  assumes "x \<le> of_int b"
  shows "rint x \<le> b"
proof -
  from assms have f: "\<lfloor>x\<rfloor> \<le> b" by (simp add: floor_le_iff)
  show ?thesis
  proof (cases "x = of_int \<lfloor>x\<rfloor>")
    case True
    then have "x - of_int \<lfloor>x\<rfloor> = 0" by simp
    then have "rint x = \<lfloor>x\<rfloor>" by (simp add: rint_def Let_def)
    with f show ?thesis by simp
  next
    case False
    have "of_int \<lfloor>x\<rfloor> \<le> x" by simp
    with False have "of_int \<lfloor>x\<rfloor> < x" by linarith
    with assms have "(of_int \<lfloor>x\<rfloor> :: real) < of_int b" by linarith
    then have "\<lfloor>x\<rfloor> < b" by simp
    then show ?thesis by (auto simp: rint_def Let_def)
  qed
qed

lemma round1_range:
  assumes "0 \<le> x" and "x \<le> 100"
  shows "0 \<le> round1 x \<and> round1 x \<le> 100"
proof -
  from assms(1) have "of_int 0 \<le> x * 10" by simp
  then have l: "0 \<le> rint (x * 10)" by (rule rint_lower)
  from assms(2) have "x * 10 \<le> of_int 1000" by simp
  then have u: "rint (x * 10) \<le> 1000" by (rule rint_upper)
  from l have 1: "0 \<le> round1 x" by (simp add: round1_def)
  from u have "real_of_int (rint (x * 10)) \<le> 1000" by linarith
  then have 2: "round1 x \<le> 100" by (simp add: round1_def)
  from 1 2 show ?thesis ..
qed

lemma group_float_values:
  assumes "x \<in> set (List.map_filter float_of (group_values rs g c k))"
  shows "\<exists>r \<in> set rs. float_of (cell_of r c) = Some x"
  using assms by (auto simp: group_values_def List.map_filter_def)

lemma impute_score_step:
  assumes "impute_score P c df = Inr df'"
  shows "unchanged_off {c} df df' \<and> (c \<in> set (columns df) \<longrightarrow> col_ok (na_or is_score) c df')"
proof (cases "c \<in> set (columns df)")
  case False
  with assms show ?thesis by (simp add: impute_score_def)
next
  case True
  define df2 where "df2 = map_col c in_range_cell (map_col c (numeric_cell P) df)"
  define F where "F = (\<lambda>r. fillna (cell_of r c)
     (case grp_mean (rows df2) c r of None \<Rightarrow> NA | Some m \<Rightarrow> CNum (round1 m)))"
  from assms True have df': "df' = set_col c F df2"
    by (auto simp: impute_score_def Let_def df2_def F_def split: if_splits)
  have "unchanged_off ({c} \<union> {c}) df df2"
    unfolding df2_def by (rule unchanged_off_trans) (rule unchanged_off_map_col)+
  then have u2: "unchanged_off {c} df df2" by simp
  have "unchanged_off ({c} \<union> {c}) df df'"
    unfolding df' by (rule unchanged_off_trans [OF u2 unchanged_off_set_col])
  then have u: "unchanged_off {c} df df'" by simp
  have q2: "col_ok (na_or is_score) c df2"
    by (auto simp: col_ok_def df2_def numeric_cell_def in_range_cell_def na_or_def is_score_def
        split: option.splits)
  have "na_or is_score (F r)" if r: "r \<in> set (rows df2)" for r
  proof (cases "cell_of r c = NA")
    case False
    with q2 r show ?thesis by (auto simp: F_def fillna_def col_ok_def)
  next
    case na: True
    show ?thesis
    proof (cases "grp_mean (rows df2) c r")
      case None
      with na show ?thesis by (simp add: F_def fillna_def na_or_def)
    next
      case (Some m)
      then have mm: "mean (List.map_filter float_of
          (group_values (rows df2) ''Track'' c (cell_of r ''Track''))) = Some m"
        by (auto simp: grp_mean_def split: if_splits)
      have "0 \<le> x \<and> x \<le> 100"
        if "x \<in> set (List.map_filter float_of
          (group_values (rows df2) ''Track'' c (cell_of r ''Track'')))" for x
      proof -
        from group_float_values [OF that] obtain r' where
          r': "r' \<in> set (rows df2)" "float_of (cell_of r' c) = Some x" by blast
        from q2 r'(1) have "na_or is_score (cell_of r' c)" by (simp add: col_ok_def)
        with r'(2) show ?thesis
          by (auto simp: na_or_def is_score_def float_of_def split: cell.splits)
      qed
      from mean_bounds [OF mm this] have "0 \<le> m \<and> m \<le> 100" by blast
      with round1_range have "0 \<le> round1 m \<and> round1 m \<le> 100" by blast
      with na Some show ?thesis by (simp add: F_def fillna_def na_or_def is_score_def)
    qed
  qed
  then have "col_ok (na_or is_score) c df'"
    unfolding df' by (rule col_ok_set_col)
  with u show ?thesis by blast
qed

lemma impute_bool_step:
  assumes "impute_bool P c df = Inr df'"
  shows "unchanged_off {c} df df' \<and> (c \<in> set (columns df) \<longrightarrow> col_ok (na_or is_bool) c df')"
proof (cases "c \<in> set (columns df)")
  case False
  with assms show ?thesis by (simp add: impute_bool_def)
next
  case True
  define df1 where "df1 = map_col c (decode_bool P) df"
  define F where "F = (\<lambda>r. fillna (cell_of r c)
     (case grp_mode (rows df1) c r of None \<Rightarrow> NA | Some m \<Rightarrow> CBool m))"
  from assms True have df': "df' = set_col c F df1"
    by (auto simp: impute_bool_def Let_def df1_def F_def split: if_splits)
  have u1: "unchanged_off {c} df df1"
    unfolding df1_def by (rule unchanged_off_map_col)
  have "unchanged_off ({c} \<union> {c}) df df'"
    unfolding df' by (rule unchanged_off_trans [OF u1 unchanged_off_set_col])
  then have u: "unchanged_off {c} df df'" by simp
  have q1: "col_ok (na_or is_bool) c df1"
    unfolding df1_def
    by (rule col_ok_map_col)
       (simp add: decode_bool_def na_or_def is_bool_def split: option.splits)
  have "na_or is_bool (F r)" if r: "r \<in> set (rows df1)" for r
    using q1 r
    by (auto simp: F_def fillna_def col_ok_def na_or_def is_bool_def split: option.splits)
  then have "col_ok (na_or is_bool) c df'"
    unfolding df' by (rule col_ok_set_col)
  with u show ?thesis by blast
qed

subsection \<open>The pipeline as a whole\<close>

lemma in_domain_simps:
  "in_domain ''Class'' = is_class"
  "in_domain ''Cohort'' = is_cohort"
  "in_domain ''StudentID'' = is_student_id"
  "in_domain ''Term'' = is_term"
  "c \<in> set score_cols \<Longrightarrow> in_domain c = is_score"
  "c \<in> set boolean_cols \<Longrightarrow> in_domain c = is_bool"
  "c \<in> {''FirstName'', ''LastName'', ''Track''} \<Longrightarrow> in_domain c = is_text"
  by (rule ext, auto simp: in_domain_def score_cols_def boolean_cols_def str_cols_def)+

lemma in_domain_other:
  "c \<notin> set str_cols \<Longrightarrow> c \<notin> set int_cols \<Longrightarrow> c \<notin> set score_cols \<Longrightarrow> c \<notin> set boolean_cols
   \<Longrightarrow> na_or (in_domain c) v"
  by (auto simp: in_domain_def na_or_def str_cols_def int_cols_def)

lemma clean_cells_phases:
  assumes "clean_cells P df = Inr pre"
  obtains df4 df5 where
    "fold_err (coerce_int_col P) int_cols
       (validate_formats (fold (normalize_str_col P) str_cols (replace_special_nulls df))) = Inr df4"
    "fold_err (impute_score P) score_cols (validate_ids df4) = Inr df5"
    "fold_err (impute_bool P) boolean_cols df5 = Inr pre"
  using assms by (auto simp: clean_cells_def Let_def split: sum.splits)

lemma clean_cells_domains:
  assumes "clean_cells P df = Inr pre"
  shows "columns pre = columns df \<and> map label (rows pre) = map label (rows df)
     \<and> (\<forall>c \<in> set (columns df). col_ok (na_or (in_domain c)) c pre)"
proof -
  define df1 where "df1 = replace_special_nulls df"
  define df2 where "df2 = fold (normalize_str_col P) str_cols df1"
  define df3 where "df3 = validate_formats df2"
  from clean_cells_phases [OF assms] obtain df4 df5 where
    e4: "fold_err (coerce_int_col P) int_cols df3 = Inr df4" and
    e5: "fold_err (impute_score P) score_cols (validate_ids df4) = Inr df5" and
    e6: "fold_err (impute_bool P) boolean_cols df5 = Inr pre"
    unfolding df1_def df2_def df3_def by blast
  have c1: "columns df1 = columns df" and l1: "map label (rows df1) = map label (rows df)"
    by (simp_all add: df1_def)
  from fold_touch [of "normalize_str_col P" "na_or is_text" str_cols df1]
  have u2: "unchanged_off (set str_cols) df1 df2"
    and q2: "\<forall>c \<in> set str_cols. c \<in> set (columns df1) \<longrightarrow> col_ok (na_or is_text) c df2"
    unfolding df2_def using normalize_str_col_step by blast+
  from validate_formats_step [of df2]
  have u3: "unchanged_off {''Class'', ''Cohort''} df2 df3"
    and q3a: "''Class'' \<in> set (columns df2) \<longrightarrow> col_ok (na_or is_class) ''Class'' df3"
    and q3b: "''Cohort'' \<in> set (columns df2) \<longrightarrow> col_ok (na_or is_cohort) ''Cohort'' df3"
    unfolding df3_def by blast+
  from fold_err_touch [of "coerce_int_col P" "\<lambda>_. True" int_cols df3 df4] e4
  have u4: "unchanged_off (set int_cols) df3 df4"
    using coerce_int_col_step by (auto simp: col_ok_def)
  from validate_ids_step [of df4]
  have u5: "unchanged_off {''StudentID'', ''Term''} df4 (validate_ids df4)"
    and q5a: "''StudentID'' \<in> set (columns df4)
        \<longrightarrow> col_ok (na_or is_student_id) ''StudentID'' (validate_ids df4)"
    and q5b: "''Term'' \<in> set (columns df4) \<longrightarrow> col_ok (na_or is_term) ''Term'' (validate_ids df4)"
    by blast+
  from fold_err_touch [of "impute_score P" "na_or is_score" score_cols "validate_ids df4" df5] e5
  have u6: "unchanged_off (set score_cols) (validate_ids df4) df5"
    and q6: "\<forall>c \<in> set score_cols. c \<in> set (columns (validate_ids df4))
        \<longrightarrow> col_ok (na_or is_score) c df5"
    using impute_score_step by blast+
  from fold_err_touch [of "impute_bool P" "na_or is_bool" boolean_cols df5 pre] e6
  have u7: "unchanged_off (set boolean_cols) df5 pre"
    and q7: "\<forall>c \<in> set boolean_cols. c \<in> set (columns df5) \<longrightarrow> col_ok (na_or is_bool) c pre"
    using impute_bool_step by blast+
  note us = u2 u3 u4 u5 u6 u7
  have cols: "columns df2 = columns df" "columns df3 = columns df" "columns df4 = columns df"
    "columns (validate_ids df4) = columns df" "columns df5 = columns df" "columns pre = columns df"
    using us c1 by (simp_all add: unchanged_off_def)
  have "map label (rows pre) = map label (rows df1)"
    using us [THEN unchanged_off_labels] by simp
  with l1 have labels: "map label (rows pre) = map label (rows df)" by simp
  have t6: "unchanged_off (set score_cols \<union> set boolean_cols) (validate_ids df4) pre"
    by (rule unchanged_off_trans [OF u6 u7])
  have t4: "unchanged_off (set int_cols \<union> set score_cols \<union> set boolean_cols) df3 pre"
    using unchanged_off_trans [OF unchanged_off_trans [OF u4 u5] t6]
    by (simp add: int_cols_def Un_assoc insert_commute)
  have t3: "unchanged_off ({''Class'', ''Cohort''} \<union> set int_cols \<union> set score_cols
      \<union> set boolean_cols) df2 pre"
    using unchanged_off_trans [OF u3 t4] by (simp add: Un_assoc)
  have "col_ok (na_or (in_domain c)) c pre" if c: "c \<in> set (columns df)" for c
  proof -
    consider (cls) "c = ''Class''" | (coh) "c = ''Cohort''" | (sid) "c = ''StudentID''"
      | (trm) "c = ''Term''" | (score) "c \<in> set score_cols" | (bl) "c \<in> set boolean_cols"
      | (names) "c \<in> {''FirstName'', ''LastName'', ''Track''}"
      | (other) "c \<notin> set str_cols" "c \<notin> set int_cols" "c \<notin> set score_cols"
          "c \<notin> set boolean_cols"
      by (auto simp: str_cols_def int_cols_def)
    then show ?thesis
    proof cases
      case cls
      with q3a c cols have "col_ok (na_or is_class) c df3" by simp
      from col_ok_unchanged [OF t4 _ this] cls show ?thesis
        by (simp add: in_domain_simps int_cols_def score_cols_def boolean_cols_def)
    next
      case coh
      with q3b c cols have "col_ok (na_or is_cohort) c df3" by simp
      from col_ok_unchanged [OF t4 _ this] coh show ?thesis
        by (simp add: in_domain_simps int_cols_def score_cols_def boolean_cols_def)
    next
      case sid
      with q5a c cols have "col_ok (na_or is_student_id) c (validate_ids df4)" by simp
      from col_ok_unchanged [OF t6 _ this] sid show ?thesis
        by (simp add: in_domain_simps score_cols_def boolean_cols_def)
    next
      case trm
      with q5b c cols have "col_ok (na_or is_term) c (validate_ids df4)" by simp
      from col_ok_unchanged [OF t6 _ this] trm show ?thesis
        by (simp add: in_domain_simps score_cols_def boolean_cols_def)
    next
      case score
      with q6 c cols have "col_ok (na_or is_score) c df5" by simp
      from col_ok_unchanged [OF u7 _ this] score show ?thesis
        by (auto simp: in_domain_simps score_cols_def boolean_cols_def)
    next
      case bl
      with q7 c cols show ?thesis by (simp add: in_domain_simps)
    next
      case names
      with q2 c c1 names have "col_ok (na_or is_text) c df2" by (auto simp: str_cols_def)
      from col_ok_unchanged [OF t3 _ this] names show ?thesis
        by (auto simp: in_domain_simps int_cols_def score_cols_def boolean_cols_def)
    next
      case other
      then show ?thesis by (simp add: col_ok_def in_domain_other)
    qed
  qed
  with cols labels show ?thesis by blast
qed

lemma subseq_map_filter: "subseq (map f (filter p xs)) (map f xs)"
  by (induction xs) auto

text \<open>
  C1. Every record that survives \<open>clean_df\<close> has every field of the frame populated with
  a value of its domain: no cell is missing, every score is a number from 0 to 100, Term
  is 1 or 2, Class and Cohort match their formats, StudentID is a four-digit number, the
  boolean fields are booleans. The labels of the cleaned frame are a subsequence of the
  labels of the input: each surviving record is a record of the input, once and in the
  input order, so a dropped record does not come back.
\<close>

theorem clean_df_invariants:
  assumes "clean_df P df = Inr out"
  shows "columns out = columns df
    \<and> subseq (map label (rows out)) (map label (rows df))
    \<and> (\<forall>r \<in> set (rows out). \<forall>c \<in> set (columns out).
          cell_of r c \<noteq> NA \<and> in_domain c (cell_of r c))"
proof -
  from assms obtain pre where pre: "clean_cells P df = Inr pre" and out: "out = dropna pre"
    by (auto simp: clean_df_def split: sum.splits)
  from clean_cells_domains [OF pre] have cols: "columns pre = columns df"
    and labels: "map label (rows pre) = map label (rows df)"
    and dom: "\<forall>c \<in> set (columns df). col_ok (na_or (in_domain c)) c pre" by blast+
  from out cols have 1: "columns out = columns df" by (simp add: dropna_def)
  have "subseq (map label (rows out)) (map label (rows pre))"
    unfolding out dropna_def by (simp add: subseq_map_filter)
  with labels have 2: "subseq (map label (rows out)) (map label (rows df))" by simp
  have 3: "cell_of r c \<noteq> NA \<and> in_domain c (cell_of r c)"
    if r: "r \<in> set (rows out)" and c: "c \<in> set (columns out)" for r c
  proof -
    from r out have rp: "r \<in> set (rows pre)" and cm: "complete (columns pre) r"
      by (auto simp: dropna_def)
    from cm c 1 cols have na: "cell_of r c \<noteq> NA" by (auto simp: complete_def list_all_iff)
    from dom c 1 rp have "na_or (in_domain c) (cell_of r c)" by (auto simp: col_ok_def)
    with na show ?thesis by (simp add: na_or_def)
  qed
  from 1 2 3 show ?thesis by blast
qed

subsection \<open>One column through the pipeline\<close>

lemma col_rel_trans:
  "col_rel c R df1 df2 \<Longrightarrow> col_rel c S df2 df3 \<Longrightarrow> col_rel c (\<lambda>v w. \<exists>u. R v u \<and> S u w) df1 df3"
  unfolding col_rel_def list_all2_conv_all_nth by fastforce

lemma col_rel_unchanged: "unchanged_off S df df' \<Longrightarrow> c \<notin> S \<Longrightarrow> col_rel c (=) df df'"
  unfolding col_rel_def unchanged_off_def list_all2_conv_all_nth by auto

lemma col_rel_map_col: "col_rel c (\<lambda>v w. w = f v) df (map_col c f df)"
  by (simp add: col_rel_def list_all2_map2 list_all2_refl)

lemma col_rel_replace_special_nulls:
  "col_rel c (\<lambda>v w. w = replace_null v) df (replace_special_nulls df)"
  by (simp add: col_rel_def replace_special_nulls_def list_all2_map2 list_all2_refl)

lemma col_rel_mono: "col_rel c R df df' \<Longrightarrow> (\<And>v w. R v w \<Longrightarrow> S v w) \<Longrightarrow> col_rel c S df df'"
  unfolding col_rel_def by (erule list_all2_mono) auto

lemma clean_cells_student_id:
  assumes "clean_cells P df = Inr pre" and sid: "''StudentID'' \<in> set (columns df)"
  shows "col_rel ''StudentID''
     (\<lambda>v w. w = valid_student_id (to_Int64 (to_numeric P (replace_null v)))) df pre"
proof -
  define df1 where "df1 = replace_special_nulls df"
  define df2 where "df2 = fold (normalize_str_col P) str_cols df1"
  define df3 where "df3 = validate_formats df2"
  from clean_cells_phases [OF assms(1)] obtain df4 df5 where
    e4: "fold_err (coerce_int_col P) int_cols df3 = Inr df4" and
    e5: "fold_err (impute_score P) score_cols (validate_ids df4) = Inr df5" and
    e6: "fold_err (impute_bool P) boolean_cols df5 = Inr pre"
    unfolding df1_def df2_def df3_def by blast
  have r1: "col_rel ''StudentID'' (\<lambda>v w. w = replace_null v) df df1"
    unfolding df1_def by (rule col_rel_replace_special_nulls)
  have u2: "unchanged_off (set str_cols) df1 df2"
    unfolding df2_def using fold_touch [of "normalize_str_col P" "na_or is_text" str_cols df1]
      normalize_str_col_step by blast
  have u3: "unchanged_off {''Class'', ''Cohort''} df2 df3"
    unfolding df3_def using validate_formats_step [of df2] by blast
  have r3: "col_rel ''StudentID'' (=) df1 df3"
    by (rule col_rel_unchanged [OF unchanged_off_trans [OF u2 u3]]) (simp add: str_cols_def)
  have cols3: "columns df3 = columns df"
    using u2 u3 by (simp add: unchanged_off_def df1_def)
  from e4 obtain d where d: "coerce_int_col P ''StudentID'' df3 = Inr d"
    and d4: "coerce_int_col P ''Term'' d = Inr df4"
    by (auto simp: int_cols_def split: sum.splits)
  from d sid cols3 have "d = map_col ''StudentID'' (\<lambda>v. to_Int64 (to_numeric P v)) df3"
    by (auto simp: coerce_int_col_def split: if_splits)
  then have r4: "col_rel ''StudentID'' (\<lambda>v w. w = to_Int64 (to_numeric P v)) df3 d"
    by (simp add: col_rel_map_col)
  have r4': "col_rel ''StudentID'' (=) d df4"
    by (rule col_rel_unchanged [OF coerce_int_col_step [OF d4]]) simp
  have cols4: "columns df4 = columns df"
    using coerce_int_col_step [OF d] coerce_int_col_step [OF d4] cols3
    by (simp add: unchanged_off_def)
  define d5 where "d5 = map_col ''StudentID'' valid_student_id df4"
  have v: "validate_ids df4 = (if ''Term'' \<in> set (columns d5) then map_col ''Term'' valid_term d5 else d5)"
    using sid cols4 by (simp add: validate_ids_def Let_def d5_def)
  have r5: "col_rel ''StudentID'' (\<lambda>v w. w = valid_student_id v) df4 d5"
    unfolding d5_def by (rule col_rel_map_col)
  have "unchanged_off {''Term''} d5 (validate_ids df4)"
    unfolding v by (simp add: unchanged_off_map_col)
  then have r5': "col_rel ''StudentID'' (=) d5 (validate_ids df4)"
    by (rule col_rel_unchanged) simp
  have u6: "unchanged_off (set score_cols) (validate_ids df4) df5"
    using fold_err_touch [of "impute_score P" "na_or is_score" score_cols "validate_ids df4" df5] e5
      impute_score_step by blast
  have u7: "unchanged_off (set boolean_cols) df5 pre"
    using fold_err_touch [of "impute_bool P" "na_or is_bool" boolean_cols df5 pre] e6
      impute_bool_step by blast
  have r7: "col_rel ''StudentID'' (=) (validate_ids df4) pre"
    by (rule col_rel_unchanged [OF unchanged_off_trans [OF u6 u7]])
       (simp add: score_cols_def boolean_cols_def)
  note rs = col_rel_trans [OF r1 col_rel_trans [OF r3 col_rel_trans [OF r4 col_rel_trans [OF r4'
    col_rel_trans [OF r5 col_rel_trans [OF r5' r7]]]]]]
  show ?thesis by (rule col_rel_mono [OF rs]) auto
qed

subsection \<open>Four-digit numbers\<close>

lemma digit_char_is_digit: "d < 10 \<Longrightarrow> is_digit (digit_char d)"
proof -
  assume "d < 10"
  then have "d \<in> {0, 1, 2, 3, 4, 5, 6, 7, 8, 9}" by auto
  then show ?thesis by (auto simp: is_digit_def digit_char_def digits_def)
qed

lemma str_nat_digits: "list_all is_digit (str_nat m)"
proof (induction m rule: str_nat.induct)
  case (1 n)
  show ?case
  proof (cases "n < 10")
    case True
    then show ?thesis by (subst str_nat.simps) (simp add: digit_char_is_digit)
  next
    case False
    with 1 have "list_all is_digit (str_nat (n div 10))" by simp
    with False show ?thesis by (subst str_nat.simps) (simp add: digit_char_is_digit)
  qed
qed

lemma length_str_nat_small: "n < 10 \<Longrightarrow> length (str_nat n) = 1"
  by (subst str_nat.simps) simp

lemma length_str_nat_step: "\<not> n < 10 \<Longrightarrow> length (str_nat n) = Suc (length (str_nat (n div 10)))"
  by (subst str_nat.simps) simp

lemma length_str_nat_pos: "0 < length (str_nat n)"
  by (subst str_nat.simps) simp

lemma length_str_nat_4: "length (str_nat n) = 4 \<longleftrightarrow> 1000 \<le> n \<and> n \<le> 9999"
proof (cases "n < 10")
  case True
  then show ?thesis by (simp add: length_str_nat_small)
next
  case a: False
  show ?thesis
  proof (cases "n div 10 < 10")
    case True
    with a show ?thesis by (simp add: length_str_nat_step length_str_nat_small) linarith
  next
    case b: False
    show ?thesis
    proof (cases "n div 10 div 10 < 10")
      case True
      with a b show ?thesis by (simp add: length_str_nat_step length_str_nat_small) linarith
    next
      case c: False
      show ?thesis
      proof (cases "n div 10 div 10 div 10 < 10")
        case True
        with a b c show ?thesis by (simp add: length_str_nat_step length_str_nat_small) linarith
      next
        case d: False
        from length_str_nat_pos [of "n div 10 div 10 div 10 div 10"] a b c d
        have "length (str_nat n) > 4" by (simp add: length_str_nat_step)
        moreover from d have "n > 9999" by linarith
        ultimately show ?thesis by simp
      qed
    qed
  qed
qed

lemma fullmatch_d4_iff: "fullmatch_d4 s \<longleftrightarrow> length s = 4 \<and> list_all is_digit s"
  by (auto simp: fullmatch_d4_def split: list.splits)

lemma four_digit_number: "fullmatch_d4 (py_str_int n) \<longleftrightarrow> 1000 \<le> n \<and> n \<le> 9999"
proof (cases "n < 0")
  case True
  then show ?thesis
    by (auto simp: fullmatch_d4_iff py_str_int_def is_digit_def digits_def)
next
  case False
  have "length (str_nat (nat n)) = 4 \<longleftrightarrow> 1000 \<le> n \<and> n \<le> 9999"
    using False by (simp add: length_str_nat_4) linarith
  with False show ?thesis
    by (simp add: fullmatch_d4_iff py_str_int_def str_nat_digits)
qed

lemma dropna_drops:
  assumes rel: "col_rel c R df pre" and dist: "distinct (map label (rows df))"
    and c: "c \<in> set (columns pre)" and r: "r \<in> set (rows df)"
    and na: "\<And>w. R (cell_of r c) w \<Longrightarrow> w = NA"
  shows "label r \<notin> label ` set (rows (dropna pre))"
proof
  assume "label r \<in> label ` set (rows (dropna pre))"
  then obtain ro where ro: "ro \<in> set (rows pre)" "complete (columns pre) ro" "label ro = label r"
    by (auto simp: dropna_def)
  from rel have len: "length (rows df) = length (rows pre)"
    and nth: "\<And>i. i < length (rows df) \<Longrightarrow> label (rows pre ! i) = label (rows df ! i)
        \<and> R (cell_of (rows df ! i) c) (cell_of (rows pre ! i) c)"
    by (auto simp: col_rel_def list_all2_conv_all_nth)
  from r obtain j where j: "j < length (rows df)" "rows df ! j = r"
    by (auto simp: in_set_conv_nth)
  from ro(1) len obtain k where k: "k < length (rows df)" "rows pre ! k = ro"
    by (auto simp: in_set_conv_nth)
  from nth [OF k(1)] k(2) ro(3) j(2) have "label (rows df ! k) = label (rows df ! j)" by simp
  then have "map label (rows df) ! k = map label (rows df) ! j" using j(1) k(1) by simp
  moreover from j(1) k(1) have "j < length (map label (rows df))" "k < length (map label (rows df))"
    by simp_all
  ultimately have "k = j" using dist by (simp only: nth_eq_iff_index_eq)
  with nth [OF j(1)] j(2) k(2) have "R (cell_of r c) (cell_of ro c)" by simp
  from na [OF this] have "cell_of ro c = NA" .
  with ro(2) c show False by (auto simp: complete_def list_all_iff)
qed

lemma digit_value_range: "0 \<le> digit_value c \<and> digit_value c \<le> 9"
  by (simp add: digit_value_def digits_def)

lemma decimal_value_leading_zero:
  "decimal_value [CHR ''0'', a, b, c] = decimal_value [a, b, c]"
  "0 \<le> decimal_value [a, b, c] \<and> decimal_value [a, b, c] \<le> 999"
  using digit_value_range [of a] digit_value_range [of b] digit_value_range [of c]
  by (simp_all add: decimal_value_def digit_value_def digits_def)

text \<open>
  C8. A StudentID given as the text of four digits with a leading zero, which pandas reads
  as the number the digits denote, loses the zero at the integer coercion: the coerced
  value is the number of the last three digits, the four-digit check turns it into a
  missing value, and the record is not in the cleaned frame (its label is not among the
  labels of the output; labels are distinct, as the loader numbers the rows). Every
  surviving record's StudentID is an integer from 1000 to 9999.
\<close>

theorem leading_zero_student_id_dropped:
  assumes "clean_df P df = Inr out" and "''StudentID'' \<in> set (columns df)"
  shows "(\<forall>r \<in> set (rows out). \<exists>n. cell_of r ''StudentID'' = CInt n \<and> 1000 \<le> n \<and> n \<le> 9999)
     \<and> (distinct (map label (rows df)) \<longrightarrow>
        (\<forall>r \<in> set (rows df). \<forall>a b c.
            cell_of r ''StudentID'' = Str [CHR ''0'', a, b, c]
            \<and> is_digit a \<and> is_digit b \<and> is_digit c
            \<and> parse_number P [CHR ''0'', a, b, c] = Some (of_int (decimal_value [CHR ''0'', a, b, c]))
            \<longrightarrow> to_Int64 (to_numeric P (cell_of r ''StudentID'')) = CInt (decimal_value [a, b, c])
              \<and> valid_student_id (CInt (decimal_value [a, b, c])) = NA
              \<and> label r \<notin> label ` set (rows out)))"
proof -
  from assms(1) obtain pre where pre: "clean_cells P df = Inr pre" and out: "out = dropna pre"
    by (auto simp: clean_df_def split: sum.splits)
  from clean_cells_domains [OF pre] have cols: "columns pre = columns df"
    and dom: "col_ok (na_or (in_domain ''StudentID'')) ''StudentID'' pre"
    using assms(2) by blast+
  have 1: "\<exists>n. cell_of r ''StudentID'' = CInt n \<and> 1000 \<le> n \<and> n \<le> 9999"
    if r: "r \<in> set (rows out)" for r
  proof -
    from r out have rp: "r \<in> set (rows pre)" and cm: "complete (columns pre) r"
      by (auto simp: dropna_def)
    from cm cols assms(2) have "cell_of r ''StudentID'' \<noteq> NA"
      by (auto simp: complete_def list_all_iff)
    with dom rp have "is_student_id (cell_of r ''StudentID'')"
      by (auto simp: col_ok_def na_or_def in_domain_simps)
    then show ?thesis
      by (auto simp: is_student_id_def four_digit_number split: cell.splits)
  qed
  have 2: "to_Int64 (to_numeric P (cell_of r ''StudentID'')) = CInt (decimal_value [a, b, c])
      \<and> valid_student_id (CInt (decimal_value [a, b, c])) = NA
      \<and> label r \<notin> label ` set (rows out)"
    if dist: "distinct (map label (rows df))" and r: "r \<in> set (rows df)"
      and s: "cell_of r ''StudentID'' = Str [CHR ''0'', a, b, c]"
      and p: "parse_number P [CHR ''0'', a, b, c] = Some (of_int (decimal_value [CHR ''0'', a, b, c]))"
    for r a b c
  proof -
    have a: "to_Int64 (to_numeric P (cell_of r ''StudentID'')) = CInt (decimal_value [a, b, c])"
      using s p by (simp add: to_numeric_def to_Int64_def decimal_value_leading_zero)
    have b: "valid_student_id (CInt (decimal_value [a, b, c])) = NA"
      using decimal_value_leading_zero(2) [of a b c]
      by (simp add: valid_student_id_def four_digit_number)
    have n: "replace_null (cell_of r ''StudentID'') = cell_of r ''StudentID''"
      using s by (simp add: replace_null_def SPECIAL_NULLS_def)
    have "label r \<notin> label ` set (rows (dropna pre))"
    proof (rule dropna_drops [OF clean_cells_student_id [OF pre assms(2)] dist _ r])
      show "''StudentID'' \<in> set (columns pre)" using cols assms(2) by simp
    next
      fix w assume "w = valid_student_id (to_Int64 (to_numeric P
        (replace_null (cell_of r ''StudentID''))))"
      with n a b show "w = NA" by simp
    qed
    with a b out show ?thesis by simp
  qed
  from 1 2 show ?thesis by blast
qed

subsection \<open>The two imputation steps\<close>

lemma set_col_set_col [simp]:
  "set_col c F (set_col c G df) = set_col c (\<lambda>r. F (r\<lparr>cells := AList.update c (G r) (cells r)\<rparr>)) df"
  by (simp add: set_col_def comp_def)

lemma set_col_cong_rows:
  "(\<And>r. r \<in> set (rows df) \<Longrightarrow> F r = G r) \<Longrightarrow> set_col c F df = set_col c G df"
  by (simp add: set_col_def)

lemma map_filter_map: "List.map_filter f (map g xs) = List.map_filter (f \<circ> g) xs"
  by (induction xs) (auto split: option.splits)

lemma map_filter_cong:
  "(\<And>x. x \<in> set xs \<Longrightarrow> f x = g x) \<Longrightarrow> List.map_filter f xs = List.map_filter g xs"
  by (induction xs) (auto split: option.splits)

lemma float_of_in_range: "float_of (in_range_cell (numeric_cell P v)) = valid_score P v"
  by (auto simp: float_of_def in_range_cell_def numeric_cell_def valid_score_def
      split: option.splits)

lemma in_range_numeric:
  "in_range_cell (numeric_cell P v) = (case valid_score P v of None \<Rightarrow> NA | Some x \<Rightarrow> CNum x)"
  by (auto simp: in_range_cell_def numeric_cell_def valid_score_def split: option.splits)

lemma mean_cases:
  "mean xs = (case xs of [] \<Rightarrow> None | y # ys \<Rightarrow> Some (sum_list (y # ys) / real (length (y # ys))))"
  by (simp add: mean_def split: list.splits)

lemma group_values_set_col:
  assumes "c \<noteq> g"
  shows "group_values (rows (set_col c F df)) g c k
     = map F (filter (\<lambda>r. cell_of r g = k) (rows df))"
  using assms by (simp add: group_values_def filter_map comp_def)

text \<open>
  C3. For a score field \<open>c\<close> of a frame with a Track column, the imputation step returns
  the frame in which column \<open>c\<close> of every row holds: the score itself when it is valid (a
  number from 0 to 100); otherwise the mean, rounded to one decimal, of the valid scores of
  \<open>c\<close> in the rows of the same Track; and a missing value when the Track has no valid
  score of \<open>c\<close> (or the row has no Track).
\<close>

theorem impute_score_track_mean:
  assumes "c \<in> set score_cols" and "c \<in> set (columns df)" and "''Track'' \<in> set (columns df)"
  shows "impute_score P c df = Inr (set_col c (spec_imputed_score P df c) df)"
proof -
  from assms(1) have ct: "c \<noteq> ''Track''" by (auto simp: score_cols_def)
  define G where "G = (\<lambda>r. in_range_cell (numeric_cell P (cell_of r c)))"
  have df2: "map_col c in_range_cell (map_col c (numeric_cell P) df) = set_col c G df"
    by (simp add: map_col_def G_def)
  have gv: "List.map_filter float_of (group_values (rows (set_col c G df)) ''Track'' c k)
      = track_valid_scores P df c k" for k
    unfolding group_values_set_col [OF ct]
    by (simp add: map_filter_map comp_def G_def float_of_in_range track_valid_scores_def)
  have gm: "grp_mean (rows (set_col c G df)) c (r\<lparr>cells := AList.update c (G r) (cells r)\<rparr>)
      = (if cell_of r ''Track'' = NA then None
         else mean (track_valid_scores P df c (cell_of r ''Track'')))" for r
    unfolding grp_mean_def using ct by (simp add: gv del: rows_set_col)
  have "fillna (G r) (case grp_mean (rows (set_col c G df)) c
          (r\<lparr>cells := AList.update c (G r) (cells r)\<rparr>) of
        None \<Rightarrow> NA | Some m \<Rightarrow> CNum (round1 m)) = spec_imputed_score P df c r" for r
    unfolding gm
    by (auto simp: fillna_def mean_cases spec_imputed_score_def G_def
        in_range_numeric split: option.splits list.splits)
  then have "set_col c (\<lambda>r. fillna (cell_of r c)
        (case grp_mean (rows (set_col c G df)) c r of None \<Rightarrow> NA | Some m \<Rightarrow> CNum (round1 m)))
        (set_col c G df) = set_col c (spec_imputed_score P df c) df"
    by simp
  with assms(2,3) show ?thesis
    by (simp add: impute_score_def Let_def df2)
qed

lemma attendance_imputed:
  "column ''Attendance (%)'' (set_col ''Attendance (%)''
      (spec_imputed_score plain_text attendance_frame ''Attendance (%)'') attendance_frame)
   = [CNum 80, CNum 90, CNum 85, NA, NA]"
  by (simp add: column_def attendance_frame_def mk_row_def cell_of_def spec_imputed_score_def
      valid_score_def track_valid_scores_def to_numeric_def plain_text_def decimal_text_def
      is_digit_def digits_def round1_def rint_def map_filter_simps)

theorem impute_score_track_mean_witness:
  "''Attendance (%)'' \<in> set score_cols
   \<and> column ''Track'' attendance_frame
       = [Str ''Alpha'', Str ''Alpha'', Str ''Alpha'', Str ''Beta'', Str ''Beta'']
   \<and> column ''Attendance (%)'' attendance_frame
       = [CInt 80, CInt 90, NA, CInt 120, Str ''absent'']
   \<and> (case impute_score plain_text ''Attendance (%)'' attendance_frame of
         Inl e \<Rightarrow> [] | Inr d \<Rightarrow> column ''Attendance (%)'' d)
       = [CNum 80, CNum 90, CNum 85, NA, NA]"
proof -
  have a: "''Attendance (%)'' \<in> set score_cols" by (simp add: score_cols_def)
  have b: "''Attendance (%)'' \<in> set (columns attendance_frame)"
    "''Track'' \<in> set (columns attendance_frame)"
    by (simp_all add: attendance_frame_def)
  have c: "column ''Track'' attendance_frame
       = [Str ''Alpha'', Str ''Alpha'', Str ''Alpha'', Str ''Beta'', Str ''Beta'']"
    "column ''Attendance (%)'' attendance_frame = [CInt 80, CInt 90, NA, CInt 120, Str ''absent'']"
    by (simp_all add: column_def attendance_frame_def mk_row_def cell_of_def)
  from impute_score_track_mean [OF a b, of plain_text] a c attendance_imputed
  show ?thesis by simp
qed

lemma decode_bool_cases:
  "decode_bool P v = (case bool_of (decode_bool P v) of None \<Rightarrow> NA | Some b \<Rightarrow> CBool b)"
  by (simp add: decode_bool_def bool_of_def split: option.splits)

lemma mode_smallest: "(case mode bs of [] \<Rightarrow> None | m # _ \<Rightarrow> Some m) = smallest_mode bs"
  by (auto simp: mode_def smallest_mode_def Let_def split: list.splits)

text \<open>
  C2, as the code has it. For a boolean field \<open>c\<close> of a frame with a Track column, the
  imputation step returns the frame in which column \<open>c\<close> of every row holds: the decoded
  value when the raw value decodes; otherwise the most frequent decoded value of \<open>c\<close> in
  the rows of the same Track, which on a tie is False; and a missing value when no value of
  the Track decodes (or the row has no Track).
\<close>

theorem impute_bool_track_mode:
  assumes "c \<in> set boolean_cols" and "c \<in> set (columns df)" and "''Track'' \<in> set (columns df)"
  shows "impute_bool P c df = Inr (set_col c (imputed_bool smallest_mode P df c) df)"
proof -
  from assms(1) have ct: "c \<noteq> ''Track''" by (auto simp: boolean_cols_def)
  define G where "G = (\<lambda>r. decode_bool P (cell_of r c))"
  have df1: "map_col c (decode_bool P) df = set_col c G df"
    by (simp add: map_col_def G_def)
  have gv: "List.map_filter bool_of (group_values (rows (set_col c G df)) ''Track'' c k)
      = track_decoded P df c k" for k
    unfolding group_values_set_col [OF ct]
    by (simp add: map_filter_map comp_def G_def track_decoded_def)
  have gm: "grp_mode (rows (set_col c G df)) c (r\<lparr>cells := AList.update c (G r) (cells r)\<rparr>)
      = (if cell_of r ''Track'' = NA then None
         else smallest_mode (track_decoded P df c (cell_of r ''Track'')))" for r
    unfolding grp_mode_def using ct by (simp add: gv mode_smallest del: rows_set_col)
  have "fillna (G r) (case grp_mode (rows (set_col c G df)) c
          (r\<lparr>cells := AList.update c (G r) (cells r)\<rparr>) of
        None \<Rightarrow> NA | Some m \<Rightarrow> CBool m) = imputed_bool smallest_mode P df c r" for r
  proof (cases "bool_of (decode_bool P (cell_of r c))")
    case None
    with decode_bool_cases [of P "cell_of r c"] have "G r = NA" by (simp add: G_def)
    with None show ?thesis
      unfolding gm by (simp add: fillna_def imputed_bool_def split: option.splits)
  next
    case (Some b)
    with decode_bool_cases [of P "cell_of r c"] have "G r = CBool b" by (simp add: G_def)
    with Some show ?thesis
      unfolding gm by (simp add: fillna_def imputed_bool_def)
  qed
  then have "set_col c (\<lambda>r. fillna (cell_of r c)
        (case grp_mode (rows (set_col c G df)) c r of None \<Rightarrow> NA | Some m \<Rightarrow> CBool m))
        (set_col c G df) = set_col c (imputed_bool smallest_mode P df c) df"
    by simp
  with assms(2,3) show ?thesis
    by (simp add: impute_bool_def Let_def df1)
qed

lemmas bool_eval_defs = column_def mk_row_def cell_of_def imputed_bool_def track_decoded_def
  decode_bool_def bool_of_def BOOL_MAP_def py_str_def strip_def upper_def to_upper_def
  is_space_def whitespace_def ascii_lowercase_def ascii_uppercase_def map_filter_simps

lemma passed_imputed:
  "column ''Passed (Y/N)'' (set_col ''Passed (Y/N)''
      (imputed_bool smallest_mode plain_text passed_frame ''Passed (Y/N)'') passed_frame)
   = [CBool True, CBool False, CBool False, CBool False, NA]"
  by (simp add: passed_frame_def smallest_mode_def bool_eval_defs)

theorem impute_bool_track_mode_witness:
  "''Passed (Y/N)'' \<in> set boolean_cols
   \<and> column ''Track'' passed_frame
       = [Str ''Alpha'', Str ''Alpha'', Str ''Alpha'', Str ''Alpha'', Str ''Gamma'']
   \<and> column ''Passed (Y/N)'' passed_frame
       = [Str ''Y'', Str ''N'', Str ''FALSE'', Str ''bogus'', Str ''maybe'']
   \<and> map (decode_bool plain_text) (column ''Passed (Y/N)'' passed_frame)
       = [CBool True, CBool False, CBool False, NA, NA]
   \<and> (case impute_bool plain_text ''Passed (Y/N)'' passed_frame of
         Inl e \<Rightarrow> [] | Inr d \<Rightarrow> column ''Passed (Y/N)'' d)
       = [CBool True, CBool False, CBool False, CBool False, NA]"
proof -
  have a: "''Passed (Y/N)'' \<in> set boolean_cols" by (simp add: boolean_cols_def)
  have b: "''Passed (Y/N)'' \<in> set (columns passed_frame)"
    "''Track'' \<in> set (columns passed_frame)"
    by (simp_all add: passed_frame_def)
  have c: "column ''Track'' passed_frame
       = [Str ''Alpha'', Str ''Alpha'', Str ''Alpha'', Str ''Alpha'', Str ''Gamma'']"
    "column ''Passed (Y/N)'' passed_frame
       = [Str ''Y'', Str ''N'', Str ''FALSE'', Str ''bogus'', Str ''maybe'']"
    by (simp_all add: column_def passed_frame_def mk_row_def cell_of_def)
  have d: "map (decode_bool plain_text) [Str ''Y'', Str ''N'', Str ''FALSE'', Str ''bogus'',
      Str ''maybe''] = [CBool True, CBool False, CBool False, NA, NA]"
    by (simp add: bool_eval_defs)
  from impute_bool_track_mode [OF a b, of plain_text] a c d passed_imputed
  show ?thesis by simp
qed

text \<open>
  C2, as the specification has it, fails on a tie: with the raw values Y, N and bogus in
  one track, the first decoded value is True and the specification imputes True, while
  the code imputes False.
\<close>

lemma tie_frame_code:
  "(case impute_bool plain_text ''Passed (Y/N)'' tie_frame of
      Inl e \<Rightarrow> [] | Inr d \<Rightarrow> column ''Passed (Y/N)'' d) = [CBool True, CBool False, CBool False]"
  by (simp add: tie_frame_def impute_bool_def map_col_def set_col_def Let_def fillna_def
      grp_mode_def group_values_def mode_def bool_eval_defs)

lemma tie_frame_spec:
  "column ''Passed (Y/N)'' (set_col ''Passed (Y/N)''
      (imputed_bool first_encountered_mode plain_text tie_frame ''Passed (Y/N)'') tie_frame)
   = [CBool True, CBool False, CBool True]"
  by (simp add: tie_frame_def first_encountered_mode_def bool_eval_defs)

theorem first_encountered_mode_counterexample:
  "impute_bool plain_text ''Passed (Y/N)'' tie_frame
     \<noteq> Inr (set_col ''Passed (Y/N)''
          (imputed_bool first_encountered_mode plain_text tie_frame ''Passed (Y/N)'') tie_frame)
   \<and> column ''Passed (Y/N)'' tie_frame = [Str ''Y'', Str ''N'', Str ''bogus'']
   \<and> track_decoded plain_text tie_frame ''Passed (Y/N)'' (Str ''Beta'') = [True, False]
   \<and> first_encountered_mode [True, False] = Some True
   \<and> (case impute_bool plain_text ''Passed (Y/N)'' tie_frame of
         Inl e \<Rightarrow> [] | Inr d \<Rightarrow> column ''Passed (Y/N)'' d) = [CBool True, CBool False, CBool False]"
proof -
  have 1: "impute_bool plain_text ''Passed (Y/N)'' tie_frame
     \<noteq> Inr (set_col ''Passed (Y/N)''
          (imputed_bool first_encountered_mode plain_text tie_frame ''Passed (Y/N)'') tie_frame)"
  proof
    assume "impute_bool plain_text ''Passed (Y/N)'' tie_frame
      = Inr (set_col ''Passed (Y/N)''
          (imputed_bool first_encountered_mode plain_text tie_frame ''Passed (Y/N)'') tie_frame)"
    with tie_frame_code tie_frame_spec show False by simp
  qed
  have 2: "column ''Passed (Y/N)'' tie_frame = [Str ''Y'', Str ''N'', Str ''bogus'']"
    by (simp add: tie_frame_def column_def mk_row_def cell_of_def)
  have 3: "track_decoded plain_text tie_frame ''Passed (Y/N)'' (Str ''Beta'') = [True, False]"
    by (simp add: tie_frame_def bool_eval_defs)
  have 4: "first_encountered_mode [True, False] = Some True"
    by (simp add: first_encountered_mode_def)
  from 1 2 3 4 tie_frame_code show ?thesis by blast
qed

subsection \<open>Imputation is local to the Track\<close>

lemma same_off_track_columns: "same_off_track A df df' \<Longrightarrow> columns df' = columns df"
  by (simp add: same_off_track_def)

lemma filter_related:
  assumes "list_all2 R xs ys" and "\<And>x y. R x y \<Longrightarrow> (p x \<longleftrightarrow> q y) \<and> (p x \<longrightarrow> y = x)"
  shows "filter q ys = filter p xs"
  using assms by (induction rule: list_all2_induct) auto

lemma same_off_track_group:
  assumes "same_off_track A df df'" and "k \<noteq> A"
  shows "filter (\<lambda>r. cell_of r ''Track'' = k) (rows df')
     = filter (\<lambda>r. cell_of r ''Track'' = k) (rows df)"
proof (rule filter_related)
  from assms(1) show "list_all2 (\<lambda>r r'. label r' = label r
      \<and> cell_of r' ''Track'' = cell_of r ''Track''
      \<and> (cell_of r ''Track'' \<noteq> A \<longrightarrow> r' = r)) (rows df) (rows df')"
    by (simp add: same_off_track_def)
next
  fix x y
  assume "label y = label x \<and> cell_of y ''Track'' = cell_of x ''Track''
      \<and> (cell_of x ''Track'' \<noteq> A \<longrightarrow> y = x)"
  with assms(2) show "(cell_of x ''Track'' = k \<longleftrightarrow> cell_of y ''Track'' = k)
      \<and> (cell_of x ''Track'' = k \<longrightarrow> y = x)" by auto
qed

lemma same_off_track_replace:
  assumes "same_off_track A df df'"
  shows "same_off_track (replace_null A) (replace_special_nulls df) (replace_special_nulls df')"
  using assms unfolding same_off_track_def replace_special_nulls_def
  by (auto simp: list_all2_conv_all_nth)

lemma same_off_track_map_track:
  assumes "same_off_track A df df'"
  shows "same_off_track (f A) (map_col ''Track'' f df) (map_col ''Track'' f df')"
  using assms unfolding same_off_track_def
  by (auto simp: list_all2_conv_all_nth)

lemma same_off_track_set_col:
  assumes "same_off_track A df df'" and "c \<noteq> ''Track''"
    and "\<And>r. r \<in> set (rows df) \<Longrightarrow> cell_of r ''Track'' \<noteq> A \<Longrightarrow> F' r = F r"
  shows "same_off_track A (set_col c F df) (set_col c F' df')"
proof -
  from assms(1) have cols: "columns df' = columns df"
    and len: "length (rows df) = length (rows df')"
    and nth: "\<And>j. j < length (rows df) \<Longrightarrow> label (rows df' ! j) = label (rows df ! j)
        \<and> cell_of (rows df' ! j) ''Track'' = cell_of (rows df ! j) ''Track''
        \<and> (cell_of (rows df ! j) ''Track'' \<noteq> A \<longrightarrow> rows df' ! j = rows df ! j)"
    by (auto simp: same_off_track_def list_all2_conv_all_nth)
  have "label (rows (set_col c F' df') ! j) = label (rows (set_col c F df) ! j)
      \<and> cell_of (rows (set_col c F' df') ! j) ''Track'' = cell_of (rows (set_col c F df) ! j) ''Track''
      \<and> (cell_of (rows (set_col c F df) ! j) ''Track'' \<noteq> A
          \<longrightarrow> rows (set_col c F' df') ! j = rows (set_col c F df) ! j)"
    if j: "j < length (rows df)" for j
  proof -
    from j have mem: "rows df ! j \<in> set (rows df)" by simp
    from nth [OF j] assms(2) assms(3) [OF mem] j len show ?thesis by auto
  qed
  with cols len show ?thesis
    by (simp add: same_off_track_def list_all2_conv_all_nth)
qed

lemma same_off_track_map_col:
  "same_off_track A df df' \<Longrightarrow> c \<noteq> ''Track'' \<Longrightarrow> same_off_track A (map_col c f df) (map_col c f df')"
  unfolding map_col_def by (rule same_off_track_set_col) auto

lemma same_off_track_normalize:
  assumes "same_off_track A df df'" and "c \<noteq> ''Track''"
  shows "same_off_track A (normalize_str_col P c df) (normalize_str_col P c df')"
  using assms same_off_track_columns [OF assms(1)]
  by (simp add: normalize_str_col_def same_off_track_map_col)

lemma same_off_track_normalize_track:
  assumes "same_off_track A df df'" and "''Track'' \<in> set (columns df)"
  shows "same_off_track (normalize_text P A) (normalize_str_col P ''Track'' df)
     (normalize_str_col P ''Track'' df')"
  using assms same_off_track_columns [OF assms(1)]
  by (simp add: normalize_str_col_def same_off_track_map_track)

lemma same_off_track_validate_formats:
  assumes "same_off_track A df df'"
  shows "same_off_track A (validate_formats df) (validate_formats df')"
  using assms same_off_track_columns [OF assms]
  by (simp add: validate_formats_def Let_def same_off_track_map_col)

lemma same_off_track_validate_ids:
  assumes "same_off_track A df df'"
  shows "same_off_track A (validate_ids df) (validate_ids df')"
  using assms same_off_track_columns [OF assms]
  by (simp add: validate_ids_def Let_def same_off_track_map_col)

lemma same_off_track_coerce:
  assumes "same_off_track A df df'" and "c \<noteq> ''Track''"
    and "coerce_int_col P c df = Inr d" and "coerce_int_col P c df' = Inr d'"
  shows "same_off_track A d d'"
  using assms same_off_track_columns [OF assms(1)]
  by (auto simp: coerce_int_col_def same_off_track_map_col split: if_splits)

lemma same_off_track_impute_score:
  assumes s: "same_off_track A df df'" and ct: "c \<noteq> ''Track''"
    and "impute_score P c df = Inr d" and "impute_score P c df' = Inr d'"
  shows "same_off_track A d d'"
proof (cases "c \<in> set (columns df)")
  case False
  with assms same_off_track_columns [OF s] show ?thesis by (simp add: impute_score_def)
next
  case True
  define e where "e = map_col c in_range_cell (map_col c (numeric_cell P) df)"
  define e' where "e' = map_col c in_range_cell (map_col c (numeric_cell P) df')"
  have se: "same_off_track A e e'"
    unfolding e_def e'_def by (intro same_off_track_map_col s ct)
  from assms(3) True have d: "d = set_col c (\<lambda>r. fillna (cell_of r c)
      (case grp_mean (rows e) c r of None \<Rightarrow> NA | Some m \<Rightarrow> CNum (round1 m))) e"
    by (auto simp: impute_score_def Let_def e_def split: if_splits)
  from assms(4) True same_off_track_columns [OF s]
  have d': "d' = set_col c (\<lambda>r. fillna (cell_of r c)
      (case grp_mean (rows e') c r of None \<Rightarrow> NA | Some m \<Rightarrow> CNum (round1 m))) e'"
    by (auto simp: impute_score_def Let_def e'_def split: if_splits)
  have "grp_mean (rows e') c r = grp_mean (rows e) c r" if "cell_of r ''Track'' \<noteq> A" for r
    using same_off_track_group [OF se that] by (simp add: grp_mean_def group_values_def)
  then show ?thesis
    unfolding d d' by (intro same_off_track_set_col se ct) simp
qed

lemma same_off_track_impute_bool:
  assumes s: "same_off_track A df df'" and ct: "c \<noteq> ''Track''"
    and "impute_bool P c df = Inr d" and "impute_bool P c df' = Inr d'"
  shows "same_off_track A d d'"
proof (cases "c \<in> set (columns df)")
  case False
  with assms same_off_track_columns [OF s] show ?thesis by (simp add: impute_bool_def)
next
  case True
  define e where "e = map_col c (decode_bool P) df"
  define e' where "e' = map_col c (decode_bool P) df'"
  have se: "same_off_track A e e'"
    unfolding e_def e'_def by (intro same_off_track_map_col s ct)
  from assms(3) True have d: "d = set_col c (\<lambda>r. fillna (cell_of r c)
      (case grp_mode (rows e) c r of None \<Rightarrow> NA | Some m \<Rightarrow> CBool m)) e"
    by (auto simp: impute_bool_def Let_def e_def split: if_splits)
  from assms(4) True same_off_track_columns [OF s]
  have d': "d' = set_col c (\<lambda>r. fillna (cell_of r c)
      (case grp_mode (rows e') c r of None \<Rightarrow> NA | Some m \<Rightarrow> CBool m)) e'"
    by (auto simp: impute_bool_def Let_def e'_def split: if_splits)
  have "grp_mode (rows e') c r = grp_mode (rows e) c r" if "cell_of r ''Track'' \<noteq> A" for r
    using same_off_track_group [OF se that] by (simp add: grp_mode_def group_values_def)
  then show ?thesis
    unfolding d d' by (intro same_off_track_set_col se ct) simp
qed

lemma fold_err_related:
  assumes step: "\<And>c d d' e e'. c \<in> set cs \<Longrightarrow> R d d' \<Longrightarrow> f c d = Inr e \<Longrightarrow> f c d' = Inr e' \<Longrightarrow> R e e'"
    and "R df df'" and "fold_err f cs df = Inr out" and "fold_err f cs df' = Inr out'"
  shows "R out out'"
  using assms
proof (induction cs arbitrary: df df')
  case Nil
  then show ?case by simp
next
  case (Cons x xs)
  from Cons.prems(3) obtain e where e: "f x df = Inr e" "fold_err f xs e = Inr out"
    by (auto split: sum.splits)
  from Cons.prems(4) obtain e' where e': "f x df' = Inr e'" "fold_err f xs e' = Inr out'"
    by (auto split: sum.splits)
  have "R e e'" by (rule Cons.prems(1) [OF _ Cons.prems(2) e(1) e'(1)]) simp
  show ?case
    by (rule Cons.IH [OF _ \<open>R e e'\<close> e(2) e'(2)]) (rule Cons.prems(1), auto)
qed

lemma same_off_track_clean_cells:
  assumes s: "same_off_track A df df'" and tr: "''Track'' \<in> set (columns df)"
    and "clean_cells P df = Inr pre" and "clean_cells P df' = Inr pre'"
  shows "same_off_track (normalize_text P (replace_null A)) pre pre'"
proof -
  let ?B = "normalize_text P (replace_null A)"
  define n where "n = (\<lambda>d. fold (normalize_str_col P) str_cols (replace_special_nulls d))"
  from clean_cells_phases [OF assms(3)] obtain d4 d5 where
    e4: "fold_err (coerce_int_col P) int_cols (validate_formats (n df)) = Inr d4" and
    e5: "fold_err (impute_score P) score_cols (validate_ids d4) = Inr d5" and
    e6: "fold_err (impute_bool P) boolean_cols d5 = Inr pre"
    unfolding n_def by blast
  from clean_cells_phases [OF assms(4)] obtain d4' d5' where
    e4': "fold_err (coerce_int_col P) int_cols (validate_formats (n df')) = Inr d4'" and
    e5': "fold_err (impute_score P) score_cols (validate_ids d4') = Inr d5'" and
    e6': "fold_err (impute_bool P) boolean_cols d5' = Inr pre'"
    unfolding n_def by blast
  have s1: "same_off_track (replace_null A) (replace_special_nulls df) (replace_special_nulls df')"
    by (rule same_off_track_replace [OF s])
  have s2: "same_off_track ?B (n df) (n df')"
    unfolding n_def str_cols_def fold_simps id_apply comp_apply
    by (intro same_off_track_normalize_track same_off_track_normalize s1)
       (simp_all add: tr normalize_str_col_def)
  have s3: "same_off_track ?B (validate_formats (n df)) (validate_formats (n df'))"
    by (rule same_off_track_validate_formats [OF s2])
  have s4: "same_off_track ?B d4 d4'"
  proof (rule fold_err_related [where R = "same_off_track ?B", OF _ s3 e4 e4'])
    fix c d d' e e'
    assume c: "c \<in> set int_cols" and r: "same_off_track ?B d d'"
      and a: "coerce_int_col P c d = Inr e" and b: "coerce_int_col P c d' = Inr e'"
    from c have "c \<noteq> ''Track''" by (auto simp: int_cols_def)
    from same_off_track_coerce [OF r this a b] show "same_off_track ?B e e'" .
  qed
  have s5: "same_off_track ?B (validate_ids d4) (validate_ids d4')"
    by (rule same_off_track_validate_ids [OF s4])
  have s6: "same_off_track ?B d5 d5'"
  proof (rule fold_err_related [where R = "same_off_track ?B", OF _ s5 e5 e5'])
    fix c d d' e e'
    assume c: "c \<in> set score_cols" and r: "same_off_track ?B d d'"
      and a: "impute_score P c d = Inr e" and b: "impute_score P c d' = Inr e'"
    from c have "c \<noteq> ''Track''" by (auto simp: score_cols_def)
    from same_off_track_impute_score [OF r this a b] show "same_off_track ?B e e'" .
  qed
  show ?thesis
  proof (rule fold_err_related [where R = "same_off_track ?B", OF _ s6 e6 e6'])
    fix c d d' e e'
    assume c: "c \<in> set boolean_cols" and r: "same_off_track ?B d d'"
      and a: "impute_bool P c d = Inr e" and b: "impute_bool P c d' = Inr e'"
    from c have "c \<noteq> ''Track''" by (auto simp: boolean_cols_def)
    from same_off_track_impute_bool [OF r this a b] show "same_off_track ?B e e'" .
  qed
qed

lemma same_off_track_dropna:
  assumes "same_off_track A pre pre'"
  shows "filter (\<lambda>r. cell_of r ''Track'' \<noteq> A) (rows (dropna pre'))
     = filter (\<lambda>r. cell_of r ''Track'' \<noteq> A) (rows (dropna pre))"
proof -
  have "filter (\<lambda>r. complete (columns pre') r \<and> cell_of r ''Track'' \<noteq> A) (rows pre')
      = filter (\<lambda>r. complete (columns pre) r \<and> cell_of r ''Track'' \<noteq> A) (rows pre)"
  proof (rule filter_related)
    from assms show "list_all2 (\<lambda>r r'. label r' = label r
        \<and> cell_of r' ''Track'' = cell_of r ''Track''
        \<and> (cell_of r ''Track'' \<noteq> A \<longrightarrow> r' = r)) (rows pre) (rows pre')"
      by (simp add: same_off_track_def)
  next
    fix x y
    assume "label y = label x \<and> cell_of y ''Track'' = cell_of x ''Track''
        \<and> (cell_of x ''Track'' \<noteq> A \<longrightarrow> y = x)"
    with same_off_track_columns [OF assms]
    show "((complete (columns pre) x \<and> cell_of x ''Track'' \<noteq> A)
          \<longleftrightarrow> (complete (columns pre') y \<and> cell_of y ''Track'' \<noteq> A))
        \<and> (complete (columns pre) x \<and> cell_of x ''Track'' \<noteq> A \<longrightarrow> y = x)"
      by auto
  qed
  then show ?thesis by (simp add: dropna_def)
qed

lemma same_off_track_one_cell:
  assumes "i < length (rows df)" and "c \<noteq> ''Track''"
  shows "same_off_track (cell_of (rows df ! i) ''Track'') df
     (df\<lparr>rows := (rows df)[i := (rows df ! i)\<lparr>cells := AList.update c v (cells (rows df ! i))\<rparr>]\<rparr>)"
  using assms
  by (auto simp: same_off_track_def list_all2_conv_all_nth nth_list_update)

text \<open>
  C6. Two frames that differ only in one cell \<open>c\<close> (not the Track) of one row \<open>i\<close>, whose
  Track reads \<open>A\<close> after cleaning, are cleaned to frames with the same rows outside Track
  \<open>A\<close>: every value of every row of any other Track, imputed or not, is identical in the
  two runs.
\<close>

theorem imputation_group_local:
  assumes "clean_df P df = Inr out"
    and "clean_df P (df\<lparr>rows := (rows df)[i := (rows df ! i)\<lparr>cells :=
           AList.update c v (cells (rows df ! i))\<rparr>]\<rparr>) = Inr out'"
    and "i < length (rows df)" and "c \<noteq> ''Track''" and "''Track'' \<in> set (columns df)"
    and "A = normalize_text P (replace_null (cell_of (rows df ! i) ''Track''))"
  shows "filter (\<lambda>r. cell_of r ''Track'' \<noteq> A) (rows out')
     = filter (\<lambda>r. cell_of r ''Track'' \<noteq> A) (rows out)"
proof -
  let ?df' = "df\<lparr>rows := (rows df)[i := (rows df ! i)\<lparr>cells :=
           AList.update c v (cells (rows df ! i))\<rparr>]\<rparr>"
  from assms(1) obtain pre where pre: "clean_cells P df = Inr pre" and out: "out = dropna pre"
    by (auto simp: clean_df_def split: sum.splits)
  from assms(2) obtain pre' where pre': "clean_cells P ?df' = Inr pre'" and out': "out' = dropna pre'"
    by (auto simp: clean_df_def split: sum.splits)
  have "same_off_track A pre pre'"
    unfolding assms(6)
    by (rule same_off_track_clean_cells [OF same_off_track_one_cell [OF assms(3,4)] assms(5) pre pre'])
  then show ?thesis unfolding out out' by (rule same_off_track_dropna)
qed

subsection \<open>The pipeline on the two sheets, step by step\<close>

lemma two_sheets_step1:
  "replace_special_nulls two_sheets = sheet [
     (0, [CInt 1001, Str ''10a'', CInt 1, CInt 80, Str ''Y'', Str ''alpha'']),
     (1, [Str ''12A4'', Str ''10b'', CInt 1, CInt 50, Str ''N'', Str ''alpha'']),
     (2, [Str ''0123'', Str '' 11C'', Str ''2'', NA, Str ''bogus'', Str ''alpha'']),
     (3, [CInt 1004, Str ''11C'', Str ''2'', NA, Str ''bogus'', Str ''alpha'']),
     (4, [CInt 2001, Str ''12A'', CInt 1, CInt 40, Str ''yes'', Str ''beta'']),
     (5, [CInt 2002, Str ''12B'', CInt 2, CInt 250, CInt 0, Str ''beta''])]"
  by (simp add: two_sheets_def sheet_defs replace_special_nulls_def replace_null_def SPECIAL_NULLS_def)

lemma two_sheets_step2:
  "fold (normalize_str_col plain_text) str_cols (sheet [
     (0, [CInt 1001, Str ''10a'', CInt 1, CInt 80, Str ''Y'', Str ''alpha'']),
     (1, [Str ''12A4'', Str ''10b'', CInt 1, CInt 50, Str ''N'', Str ''alpha'']),
     (2, [Str ''0123'', Str '' 11C'', Str ''2'', NA, Str ''bogus'', Str ''alpha'']),
     (3, [CInt 1004, Str ''11C'', Str ''2'', NA, Str ''bogus'', Str ''alpha'']),
     (4, [CInt 2001, Str ''12A'', CInt 1, CInt 40, Str ''yes'', Str ''beta'']),
     (5, [CInt 2002, Str ''12B'', CInt 2, CInt 250, CInt 0, Str ''beta''])])
   = sheet [
     (0, [CInt 1001, Str ''10A'', CInt 1, CInt 80, Str ''Y'', Str ''Alpha'']),
     (1, [Str ''12A4'', Str ''10B'', CInt 1, CInt 50, Str ''N'', Str ''Alpha'']),
     (2, [Str ''0123'', Str ''11C'', Str ''2'', NA, Str ''bogus'', Str ''Alpha'']),
     (3, [CInt 1004, Str ''11C'', Str ''2'', NA, Str ''bogus'', Str ''Alpha'']),
     (4, [CInt 2001, Str ''12A'', CInt 1, CInt 40, Str ''yes'', Str ''Beta'']),
     (5, [CInt 2002, Str ''12B'', CInt 2, CInt 250, CInt 0, Str ''Beta''])]"
  by (simp add: sheet_defs str_cols_def normalize_str_col_def normalize_text_def text_defs
      column_defs)

lemma two_sheets_step3:
  "validate_formats (sheet [
     (0, [CInt 1001, Str ''10A'', CInt 1, CInt 80, Str ''Y'', Str ''Alpha'']),
     (1, [Str ''12A4'', Str ''10B'', CInt 1, CInt 50, Str ''N'', Str ''Alpha'']),
     (2, [Str ''0123'', Str ''11C'', Str ''2'', NA, Str ''bogus'', Str ''Alpha'']),
     (3, [CInt 1004, Str ''11C'', Str ''2'', NA, Str ''bogus'', Str ''Alpha'']),
     (4, [CInt 2001, Str ''12A'', CInt 1, CInt 40, Str ''yes'', Str ''Beta'']),
     (5, [CInt 2002, Str ''12B'', CInt 2, CInt 250, CInt 0, Str ''Beta''])])
   = sheet [
     (0, [CInt 1001, Str ''10A'', CInt 1, CInt 80, Str ''Y'', Str ''Alpha'']),
     (1, [Str ''12A4'', Str ''10B'', CInt 1, CInt 50, Str ''N'', Str ''Alpha'']),
     (2, [Str ''0123'', Str ''11C'', Str ''2'', NA, Str ''bogus'', Str ''Alpha'']),
     (3, [CInt 1004, Str ''11C'', Str ''2'', NA, Str ''bogus'', Str ''Alpha'']),
     (4, [CInt 2001, Str ''12A'', CInt 1, CInt 40, Str ''yes'', Str ''Beta'']),
     (5, [CInt 2002, Str ''12B'', CInt 2, CInt 250, CInt 0, Str ''Beta''])]"
  by (simp add: sheet_defs validate_formats_def keep_matching_def text_defs column_defs)

lemma two_sheets_step4:
  "fold_err (coerce_int_col plain_text) int_cols (sheet [
     (0, [CInt 1001, Str ''10A'', CInt 1, CInt 80, Str ''Y'', Str ''Alpha'']),
     (1, [Str ''12A4'', Str ''10B'', CInt 1, CInt 50, Str ''N'', Str ''Alpha'']),
     (2, [Str ''0123'', Str ''11C'', Str ''2'', NA, Str ''bogus'', Str ''Alpha'']),
     (3, [CInt 1004, Str ''11C'', Str ''2'', NA, Str ''bogus'', Str ''Alpha'']),
     (4, [CInt 2001, Str ''12A'', CInt 1, CInt 40, Str ''yes'', Str ''Beta'']),
     (5, [CInt 2002, Str ''12B'', CInt 2, CInt 250, CInt 0, Str ''Beta''])])
   = Inr (sheet [
     (0, [CInt 1001, Str ''10A'', CInt 1, CInt 80, Str ''Y'', Str ''Alpha'']),
     (1, [NA, Str ''10B'', CInt 1, CInt 50, Str ''N'', Str ''Alpha'']),
     (2, [CInt 123, Str ''11C'', CInt 2, NA, Str ''bogus'', Str ''Alpha'']),
     (3, [CInt 1004, Str ''11C'', CInt 2, NA, Str ''bogus'', Str ''Alpha'']),
     (4, [CInt 2001, Str ''12A'', CInt 1, CInt 40, Str ''yes'', Str ''Beta'']),
     (5, [CInt 2002, Str ''12B'', CInt 2, CInt 250, CInt 0, Str ''Beta''])])"
  by (simp add: sheet_defs int_cols_def coerce_int_col_def number_defs column_defs)

lemma two_sheets_step5:
  "validate_ids (sheet [
     (0, [CInt 1001, Str ''10A'', CInt 1, CInt 80, Str ''Y'', Str ''Alpha'']),
     (1, [NA, Str ''10B'', CInt 1, CInt 50, Str ''N'', Str ''Alpha'']),
     (2, [CInt 123, Str ''11C'', CInt 2, NA, Str ''bogus'', Str ''Alpha'']),
     (3, [CInt 1004, Str ''11C'', CInt 2, NA, Str ''bogus'', Str ''Alpha'']),
     (4, [CInt 2001, Str ''12A'', CInt 1, CInt 40, Str ''yes'', Str ''Beta'']),
     (5, [CInt 2002, Str ''12B'', CInt 2, CInt 250, CInt 0, Str ''Beta''])])
   = sheet [
     (0, [CInt 1001, Str ''10A'', CInt 1, CInt 80, Str ''Y'', Str ''Alpha'']),
     (1, [NA, Str ''10B'', CInt 1, CInt 50, Str ''N'', Str ''Alpha'']),
     (2, [NA, Str ''11C'', CInt 2, NA, Str ''bogus'', Str ''Alpha'']),
     (3, [CInt 1004, Str ''11C'', CInt 2, NA, Str ''bogus'', Str ''Alpha'']),
     (4, [CInt 2001, Str ''12A'', CInt 1, CInt 40, Str ''yes'', Str ''Beta'']),
     (5, [CInt 2002, Str ''12B'', CInt 2, CInt 250, CInt 0, Str ''Beta''])]"
  by (simp add: sheet_defs validate_ids_def valid_student_id_def valid_term_def text_defs
      column_defs)

lemma two_sheets_step6:
  "fold_err (impute_score plain_text) score_cols (sheet [
     (0, [CInt 1001, Str ''10A'', CInt 1, CInt 80, Str ''Y'', Str ''Alpha'']),
     (1, [NA, Str ''10B'', CInt 1, CInt 50, Str ''N'', Str ''Alpha'']),
     (2, [NA, Str ''11C'', CInt 2, NA, Str ''bogus'', Str ''Alpha'']),
     (3, [CInt 1004, Str ''11C'', CInt 2, NA, Str ''bogus'', Str ''Alpha'']),
     (4, [CInt 2001, Str ''12A'', CInt 1, CInt 40, Str ''yes'', Str ''Beta'']),
     (5, [CInt 2002, Str ''12B'', CInt 2, CInt 250, CInt 0, Str ''Beta''])])
   = Inr (sheet [
     (0, [CInt 1001, Str ''10A'', CInt 1, CNum 80, Str ''Y'', Str ''Alpha'']),
     (1, [NA, Str ''10B'', CInt 1, CNum 50, Str ''N'', Str ''Alpha'']),
     (2, [NA, Str ''11C'', CInt 2, CNum 65, Str ''bogus'', Str ''Alpha'']),
     (3, [CInt 1004, Str ''11C'', CInt 2, CNum 65, Str ''bogus'', Str ''Alpha'']),
     (4, [CInt 2001, Str ''12A'', CInt 1, CNum 40, Str ''yes'', Str ''Beta'']),
     (5, [CInt 2002, Str ''12B'', CInt 2, CNum 40, CInt 0, Str ''Beta''])])"
  by (simp add: sheet_defs score_cols_def impute_score_def numeric_cell_def in_range_cell_def
      grp_mean_def group_values_def fillna_def number_defs column_defs)

lemma two_sheets_step7:
  "fold_err (impute_bool plain_text) boolean_cols (sheet [
     (0, [CInt 1001, Str ''10A'', CInt 1, CNum 80, Str ''Y'', Str ''Alpha'']),
     (1, [NA, Str ''10B'', CInt 1, CNum 50, Str ''N'', Str ''Alpha'']),
     (2, [NA, Str ''11C'', CInt 2, CNum 65, Str ''bogus'', Str ''Alpha'']),
     (3, [CInt 1004, Str ''11C'', CInt 2, CNum 65, Str ''bogus'', Str ''Alpha'']),
     (4, [CInt 2001, Str ''12A'', CInt 1, CNum 40, Str ''yes'', Str ''Beta'']),
     (5, [CInt 2002, Str ''12B'', CInt 2, CNum 40, CInt 0, Str ''Beta''])])
   = Inr (sheet [
     (0, [CInt 1001, Str ''10A'', CInt 1, CNum 80, CBool True, Str ''Alpha'']),
     (1, [NA, Str ''10B'', CInt 1, CNum 50, CBool False, Str ''Alpha'']),
     (2, [NA, Str ''11C'', CInt 2, CNum 65, CBool False, Str ''Alpha'']),
     (3, [CInt 1004, Str ''11C'', CInt 2, CNum 65, CBool False, Str ''Alpha'']),
     (4, [CInt 2001, Str ''12A'', CInt 1, CNum 40, CBool True, Str ''Beta'']),
     (5, [CInt 2002, Str ''12B'', CInt 2, CNum 40, CBool False, Str ''Beta''])])"
  by (simp add: sheet_defs boolean_cols_def impute_bool_def decode_bool_def BOOL_MAP_def
      grp_mode_def mode_def bool_of_def group_values_def fillna_def map_filter_simps text_defs
      column_defs)

lemma two_sheets_step8:
  "dropna (sheet [
     (0, [CInt 1001, Str ''10A'', CInt 1, CNum 80, CBool True, Str ''Alpha'']),
     (1, [NA, Str ''10B'', CInt 1, CNum 50, CBool False, Str ''Alpha'']),
     (2, [NA, Str ''11C'', CInt 2, CNum 65, CBool False, Str ''Alpha'']),
     (3, [CInt 1004, Str ''11C'', CInt 2, CNum 65, CBool False, Str ''Alpha'']),
     (4, [CInt 2001, Str ''12A'', CInt 1, CNum 40, CBool True, Str ''Beta'']),
     (5, [CInt 2002, Str ''12B'', CInt 2, CNum 40, CBool False, Str ''Beta''])])
   = sheet [
     (0, [CInt 1001, Str ''10A'', CInt 1, CNum 80, CBool True, Str ''Alpha'']),
     (3, [CInt 1004, Str ''11C'', CInt 2, CNum 65, CBool False, Str ''Alpha'']),
     (4, [CInt 2001, Str ''12A'', CInt 1, CNum 40, CBool True, Str ''Beta'']),
     (5, [CInt 2002, Str ''12B'', CInt 2, CNum 40, CBool False, Str ''Beta''])]"
  by (simp add: sheet_defs dropna_def complete_def cell_of_def)

lemma clean_two_sheets: "clean_df plain_text two_sheets = Inr two_sheets_clean"
  by (simp only: clean_df_def clean_cells_def two_sheets_clean_def Let_def sum.case
      two_sheets_step1 two_sheets_step2 two_sheets_step3 two_sheets_step4 two_sheets_step5
      two_sheets_step6 two_sheets_step7 two_sheets_step8)

theorem clean_df_invariants_witness:
  "clean_df plain_text two_sheets = Inr two_sheets_clean
   \<and> columns two_sheets_clean = columns two_sheets
   \<and> map label (rows two_sheets) = [0, 1, 2, 3, 4, 5]
   \<and> map label (rows two_sheets_clean) = [0, 3, 4, 5]
   \<and> subseq (map label (rows two_sheets_clean)) (map label (rows two_sheets))
   \<and> list_all (\<lambda>r. list_all (\<lambda>c. cell_of r c \<noteq> NA \<and> in_domain c (cell_of r c))
        (columns two_sheets_clean)) (rows two_sheets_clean)"
proof -
  have l: "map label (rows two_sheets) = [0, 1, 2, 3, 4, 5]"
    "map label (rows two_sheets_clean) = [0, 3, 4, 5]"
    by (simp_all add: two_sheets_def two_sheets_clean_def sheet_defs)
  from clean_df_invariants [OF clean_two_sheets] l clean_two_sheets show ?thesis
    by (simp add: list_all_iff)
qed

lemma two_sheets_labels: "distinct (map label (rows two_sheets))"
  by (simp add: two_sheets_def sheet_defs)

lemma two_sheets_row2:
  "sheet_row 2 [Str ''0123'', Str '' 11C'', Str ''2'', Str ''N/A'', Str ''bogus'', Str ''alpha'']
     \<in> set (rows two_sheets)"
  "cell_of (sheet_row 2 [Str ''0123'', Str '' 11C'', Str ''2'', Str ''N/A'', Str ''bogus'',
     Str ''alpha'']) ''StudentID'' = Str ''0123''"
  "parse_number plain_text ''0123'' = Some (of_int (decimal_value ''0123''))"
  "decimal_value ''123'' = 123"
  "decimal_value ''0123'' = 123"
  by (simp_all add: two_sheets_def sheet_defs cell_of_def plain_text_def decimal_text_def
      is_digit_def digits_def decimal_value_def digit_value_def)

theorem leading_zero_student_id_dropped_witness:
  "clean_df plain_text two_sheets = Inr two_sheets_clean
   \<and> ''StudentID'' \<in> set (columns two_sheets)
   \<and> distinct (map label (rows two_sheets))
   \<and> cell_of (rows two_sheets ! 2) ''StudentID'' = Str ''0123''
   \<and> parse_number plain_text ''0123'' = Some 123
   \<and> to_Int64 (to_numeric plain_text (Str ''0123'')) = CInt 123
   \<and> valid_student_id (CInt 123) = NA
   \<and> label (rows two_sheets ! 2) = 2
   \<and> 2 \<notin> label ` set (rows two_sheets_clean)
   \<and> map (\<lambda>r. cell_of r ''StudentID'') (rows two_sheets_clean)
       = [CInt 1001, CInt 1004, CInt 2001, CInt 2002]"
proof -
  have c: "''StudentID'' \<in> set (columns two_sheets)"
    by (simp add: two_sheets_def sheet_defs)
  have d: "is_digit CHR ''1'' \<and> is_digit CHR ''2'' \<and> is_digit CHR ''3''"
    by (simp add: is_digit_def digits_def)
  have e: "rows two_sheets ! 2 = sheet_row 2 [Str ''0123'', Str '' 11C'', Str ''2'', Str ''N/A'',
      Str ''bogus'', Str ''alpha'']"
    by (simp add: two_sheets_def sheet_def)
  have f: "label (sheet_row 2 [Str ''0123'', Str '' 11C'', Str ''2'', Str ''N/A'',
      Str ''bogus'', Str ''alpha'']) = 2"
    by (simp add: sheet_defs)
  have g: "map (\<lambda>r. cell_of r ''StudentID'') (rows two_sheets_clean)
       = [CInt 1001, CInt 1004, CInt 2001, CInt 2002]"
    by (simp add: two_sheets_clean_def sheet_defs cell_of_def)
  from leading_zero_student_id_dropped [OF clean_two_sheets c] two_sheets_labels
    two_sheets_row2 d
  have "to_Int64 (to_numeric plain_text (Str ''0123'')) = CInt 123
      \<and> valid_student_id (CInt 123) = NA
      \<and> 2 \<notin> label ` set (rows two_sheets_clean)"
    using f by fastforce
  with clean_two_sheets c two_sheets_labels two_sheets_row2 e f g show ?thesis by simp
qed

lemma clean_local_frame: "clean_df plain_text local_frame = Inr local_clean"
  by (simp add: local_frame_def local_clean_def mk_row_def clean_defs text_defs number_defs
      column_defs)

lemma clean_local_frame_changed:
  "clean_df plain_text (local_frame\<lparr>rows := (rows local_frame)[0 := (rows local_frame ! 0)\<lparr>cells :=
      AList.update ''Math'' (CInt 60) (cells (rows local_frame ! 0))\<rparr>]\<rparr>) = Inr local_clean_changed"
  by (simp add: local_frame_def local_clean_changed_def mk_row_def clean_defs text_defs
      number_defs column_defs)

theorem imputation_group_local_witness:
  "clean_df plain_text local_frame = Inr local_clean
   \<and> clean_df plain_text (local_frame\<lparr>rows := (rows local_frame)[0 := (rows local_frame ! 0)\<lparr>cells :=
        AList.update ''Math'' (CInt 60) (cells (rows local_frame ! 0))\<rparr>]\<rparr>) = Inr local_clean_changed
   \<and> cell_of (rows local_frame ! 0) ''Math'' = CInt 80
   \<and> normalize_text plain_text (replace_null (cell_of (rows local_frame ! 0) ''Track'')) = Str ''Alpha''
   \<and> column ''Math'' local_clean = [CNum 80, CNum 80, CNum 40, CNum 40]
   \<and> column ''Math'' local_clean_changed = [CNum 60, CNum 60, CNum 40, CNum 40]
   \<and> filter (\<lambda>r. cell_of r ''Track'' \<noteq> Str ''Alpha'') (rows local_clean_changed)
       = filter (\<lambda>r. cell_of r ''Track'' \<noteq> Str ''Alpha'') (rows local_clean)
   \<and> map label (filter (\<lambda>r. cell_of r ''Track'' \<noteq> Str ''Alpha'') (rows local_clean)) = [2, 3]"
proof -
  have i: "0 < length (rows local_frame)" and c: "''Math'' \<noteq> ''Track''"
    and t: "''Track'' \<in> set (columns local_frame)"
    by (simp_all add: local_frame_def)
  have a: "Str ''Alpha''
      = normalize_text plain_text (replace_null (cell_of (rows local_frame ! 0) ''Track''))"
    by (simp add: local_frame_def mk_row_def cell_of_def replace_null_def SPECIAL_NULLS_def
        normalize_text_def text_defs)
  have m: "cell_of (rows local_frame ! 0) ''Math'' = CInt 80"
    "column ''Math'' local_clean = [CNum 80, CNum 80, CNum 40, CNum 40]"
    "column ''Math'' local_clean_changed = [CNum 60, CNum 60, CNum 40, CNum 40]"
    "map label (filter (\<lambda>r. cell_of r ''Track'' \<noteq> Str ''Alpha'') (rows local_clean)) = [2, 3]"
    by (simp_all add: local_frame_def local_clean_def local_clean_changed_def column_def
        mk_row_def cell_of_def)
  from imputation_group_local [OF clean_local_frame clean_local_frame_changed i c t a]
    clean_local_frame clean_local_frame_changed a [symmetric] m
  show ?thesis by simp
qed

section \<open>Properties of the summary statistics\<close>

subsection \<open>The order of the rows\<close>

lemma rint_mono:
  assumes "x \<le> y"
  shows "rint x \<le> rint y"
proof (cases "\<lfloor>x\<rfloor> = \<lfloor>y\<rfloor>")
  case True
  with assms have "x - of_int \<lfloor>x\<rfloor> \<le> y - of_int \<lfloor>y\<rfloor>" by simp
  with True show ?thesis by (auto simp: rint_def Let_def)
next
  case False
  from assms have "\<lfloor>x\<rfloor> \<le> \<lfloor>y\<rfloor>" by (rule floor_mono)
  with False have "\<lfloor>x\<rfloor> + 1 \<le> \<lfloor>y\<rfloor>" by simp
  moreover have "rint x \<le> \<lfloor>x\<rfloor> + 1" by (auto simp: rint_def Let_def)
  moreover have "\<lfloor>y\<rfloor> \<le> rint y" by (auto simp: rint_def Let_def)
  ultimately show ?thesis by linarith
qed

lemma round1_mono: "x \<le> y \<Longrightarrow> round1 x \<le> round1 y"
  by (simp add: round1_def divide_right_mono rint_mono)

lemma round1_of_int [simp]: "round1 (of_int n) = of_int n"
proof -
  have "real_of_int n * 10 = of_int (n * 10)" by simp
  then have "rint (real_of_int n * 10) = n * 10"
    by (simp only: rint_def Let_def floor_of_int) simp
  then show ?thesis by (simp add: round1_def)
qed

lemma round1_ge_int: "of_int n \<le> x \<Longrightarrow> of_int n \<le> round1 x"
  using round1_mono [of "of_int n" x] by simp

lemma round1_le_int: "x \<le> of_int n \<Longrightarrow> round1 x \<le> of_int n"
  using round1_mono [of x "of_int n"] by simp

lemma sort_rank_round_cell:
  "sort_rank a \<le> sort_rank b \<Longrightarrow> sort_rank (round_cell a) \<le> sort_rank (round_cell b)"
  by (cases a; cases b)
     (auto simp: sort_rank_def round_cell_def round1_mono
       intro: round1_ge_int round1_le_int less_imp_le)

lemma sorted_map_mono:
  assumes "sorted (map f xs)" and "\<And>a b. f a \<le> f b \<Longrightarrow> f (h a) \<le> f (h b)"
  shows "sorted (map f (map h xs))"
  using assms by (induction xs) auto

lemma sorted_group_keys: "sorted (map sort_rank (group_keys d g df))"
  by (simp add: group_keys_def)

lemma sorted_rounded_keys: "sorted (map sort_rank (map round_cell (group_keys d g df)))"
  by (rule sorted_map_mono [OF sorted_group_keys sort_rank_round_cell])

lemma rounded_Inr: "rounded r = Inr t \<Longrightarrow> \<exists>u. r = Inr u \<and> t = round_numeric u"
  by (cases r) (auto simp: rounded_def)

lemma fst_round_numeric: "map fst (round_numeric u) = map round_cell (map fst u)"
  by (simp add: round_numeric_def case_prod_unfold comp_def)

lemma groupby_mean_keys: "groupby_mean g cs df = Inr u \<Longrightarrow> map fst u = group_keys True g df"
  by (auto simp: groupby_mean_def comp_def split: if_splits list.splits)

lemma pass_rate_keys: "pass_rate g df = Inr u \<Longrightarrow> map fst u = group_keys True g df"
  by (cases "groupby_mean g [''Passed (Y/N)''] df")
     (auto simp: pass_rate_def case_prod_unfold comp_def dest: groupby_mean_keys)

lemma corr_keys:
  "corr_attendance_project df = Inr u \<Longrightarrow> map fst u = group_keys False ''Track'' df"
  by (auto simp: corr_attendance_project_def comp_def split: if_splits)

lemma rounded_sorted:
  assumes "rounded r = Inr t" and "\<And>u. r = Inr u \<Longrightarrow> map fst u = group_keys d g df"
  shows "sorted (map (sort_rank \<circ> fst) t)"
proof -
  from rounded_Inr [OF assms(1)] obtain u where u: "r = Inr u" "t = round_numeric u" by blast
  from assms(2) [OF u(1)] have "map fst t = map round_cell (group_keys d g df)"
    by (simp add: u(2) fst_round_numeric)
  with sorted_rounded_keys [of d g df] have "sorted (map sort_rank (map fst t))" by simp
  then show ?thesis by (simp add: comp_def)
qed

lemma sorted_neg_rev: "sorted (map (\<lambda>x. - f x) xs) \<Longrightarrow> sorted (rev (map f xs))"
  for f :: "'a \<Rightarrow> int"
  by (simp add: sorted_map sorted_wrt_rev sorted_wrt_map rev_map [symmetric])

lemma value_counts_descending: "sorted (rev (map (\<lambda>(k, n). int n) (value_counts vs)))"
proof -
  have "sorted (map (\<lambda>(k, n). - int n) (value_counts vs))"
    unfolding value_counts_def Let_def by (rule sorted_sort_key)
  then have "sorted (map (\<lambda>x. - (case x of (k, n) \<Rightarrow> int n)) (value_counts vs))"
    by (simp add: case_prod_unfold)
  then show ?thesis by (rule sorted_neg_rev)
qed

lemma nb_students_descending:
  assumes "nb_students g df = Inr t"
  shows "sorted (rev (counts_column t))"
proof -
  from assms have "t = map (\<lambda>(k, n). (k, [CInt (int n)])) (value_counts (column g df))"
    by (auto simp: nb_students_def split: if_splits)
  then have "counts_column t = map (\<lambda>(k, n). int n) (value_counts (column g df))"
    by (simp add: counts_column_def case_prod_unfold comp_def)
  with value_counts_descending show ?thesis by simp
qed

lemma collect_Inr:
  "collect xs = Inr ys \<Longrightarrow> list_all2 (\<lambda>(n, r) (n', t). n' = n \<and> r = Inr t) xs ys"
proof (induction xs arbitrary: ys)
  case Nil
  then show ?case by simp
next
  case (Cons x xs)
  obtain n r where x: "x = (n, r)" by (cases x)
  from Cons.prems x obtain t ts where "r = Inr t" "collect xs = Inr ts" "ys = (n, t) # ts"
    by (auto split: sum.splits)
  with Cons.IH [of ts] x show ?case by simp
qed

section \<open>Properties of deduplication\<close>

lemma keep_first_subset: "set (keep_first key seen xs) \<subseteq> set xs"
  by (induction xs arbitrary: seen) auto

lemma keep_first_keys_fresh: "key ` set (keep_first key seen xs) \<inter> set seen = {}"
proof (induction xs arbitrary: seen)
  case Nil
  show ?case by simp
next
  case (Cons x xs)
  from Cons.IH [of seen] Cons.IH [of "key x # seen"] show ?case by auto
qed

lemma keep_first_distinct: "distinct (map key (keep_first key seen xs))"
proof (induction xs arbitrary: seen)
  case Nil
  show ?case by simp
next
  case (Cons x xs)
  from keep_first_keys_fresh [of key "key x # seen" xs]
  have "key x \<notin> key ` set (keep_first key (key x # seen) xs)" by auto
  with Cons.IH show ?case by simp
qed

lemma keep_first_fixpoint:
  "distinct (map key xs) \<Longrightarrow> key ` set xs \<inter> set seen = {} \<Longrightarrow> keep_first key seen xs = xs"
  by (induction xs arbitrary: seen) auto

lemma keep_first_idem: "keep_first key seen (keep_first key seen xs) = keep_first key seen xs"
  by (rule keep_first_fixpoint [OF keep_first_distinct keep_first_keys_fresh])

lemma keep_first_subseq: "subseq (keep_first key seen xs) xs"
  by (induction xs arbitrary: seen) auto

lemma keep_first_sorted:
  "sorted (map f xs) \<Longrightarrow> sorted (map f (keep_first key seen xs))"
proof (induction xs arbitrary: seen)
  case Nil
  show ?case by simp
next
  case (Cons x xs)
  from keep_first_subset [of key _ xs] Cons show ?case by (auto simp: subset_iff)
qed

lemma keep_first_keys:
  "key ` set (keep_first key seen xs) = key ` set xs - set seen"
proof (induction xs arbitrary: seen)
  case Nil
  show ?case by simp
next
  case (Cons x xs)
  show ?case by (auto simp: Cons.IH)
qed

lemma keep_first_is_first:
  "r \<in> set (keep_first key seen xs) \<Longrightarrow> find (\<lambda>r'. key r' = key r) xs = Some r"
proof (induction xs arbitrary: seen)
  case Nil
  then show ?case by simp
next
  case (Cons x xs)
  show ?case
  proof (cases "key x \<in> set seen")
    case True
    with Cons.prems have r: "r \<in> set (keep_first key seen xs)" by simp
    with keep_first_keys_fresh [of key seen xs] True have "key x \<noteq> key r" by auto
    with Cons.IH [OF r] show ?thesis by simp
  next
    case False
    show ?thesis
    proof (cases "r = x")
      case True
      then show ?thesis by simp
    next
      case neq: False
      with Cons.prems False have r: "r \<in> set (keep_first key (key x # seen) xs)" by simp
      with keep_first_keys_fresh [of key "key x # seen" xs] have "key x \<noteq> key r" by auto
      with Cons.IH [OF r] show ?thesis by simp
    qed
  qed
qed

text \<open>
  C7. Deduplication is idempotent: when \<open>drop_duplicates\<close> returns a frame, applying it
  to that frame returns the same frame. When the StudentID and Term columns are present,
  the single application keeps, within each (StudentID, Term, Track) group, only the first
  row in index order (the order in which the loader numbered the rows): the kept rows have
  pairwise different keys, every key of the input is still present, every kept row is the
  first row of the index-ordered input with its key, and the kept rows are a subsequence
  of the index-ordered input. When the input is already in index order, that order is the
  order of the input rows.
\<close>

theorem drop_duplicates_idempotent:
  assumes "drop_duplicates df = Inr d"
  shows "drop_duplicates d = Inr d
    \<and> (''StudentID'' \<in> set (columns df) \<and> ''Term'' \<in> set (columns df) \<longrightarrow>
         distinct (map dedup_key (rows d))
       \<and> dedup_key ` set (rows d) = dedup_key ` set (rows df)
       \<and> list_all (\<lambda>r. find (\<lambda>r'. dedup_key r' = dedup_key r) (rows (sort_index df)) = Some r)
            (rows d)
       \<and> subseq (rows d) (rows (sort_index df))
       \<and> (sorted (map label (rows df)) \<longrightarrow> rows (sort_index df) = rows df))"
proof (cases "''StudentID'' \<in> set (columns df) \<and> ''Term'' \<in> set (columns df)")
  case False
  with assms have "d = df" by (auto simp: drop_duplicates_def)
  with assms False show ?thesis by blast
next
  case True
  let ?s = "sort_key label (rows df)"
  from assms True have tr: "''Track'' \<in> set (columns df)"
    by (auto simp: drop_duplicates_def sort_index_def Let_def split: if_splits)
  with assms True have d: "d = df\<lparr>rows := keep_first dedup_key [] ?s\<rparr>"
    by (auto simp: drop_duplicates_def sort_index_def Let_def)
  have srt: "sorted (map label (keep_first dedup_key [] ?s))"
    by (rule keep_first_sorted) simp
  have "sort_key label (keep_first dedup_key [] ?s) = keep_first dedup_key [] ?s"
    by (rule sort_key_id_if_sorted [OF srt])
  with d tr True have 1: "drop_duplicates d = Inr d"
    by (simp add: drop_duplicates_def sort_index_def keep_first_idem)
  from d have 2: "distinct (map dedup_key (rows d))"
    by (simp add: keep_first_distinct)
  from d have 3: "dedup_key ` set (rows d) = dedup_key ` set (rows df)"
    by (simp add: keep_first_keys)
  from d have 4: "list_all (\<lambda>r. find (\<lambda>r'. dedup_key r' = dedup_key r) (rows (sort_index df)) = Some r) (rows d)"
    by (auto simp: list_all_iff sort_index_def intro: keep_first_is_first)
  from d have 5: "subseq (rows d) (rows (sort_index df))"
    by (simp add: sort_index_def keep_first_subseq)
  have 6: "sorted (map label (rows df)) \<longrightarrow> rows (sort_index df) = rows df"
    by (simp add: sort_index_def sort_key_id_if_sorted)
  from 1 2 3 4 5 6 show ?thesis by blast
qed

lemma label_example_rows [simp]: "label dup_r0 = 0" "label dup_r1 = 1" "label dup_r2 = 2"
  by (simp_all add: dup_r0_def dup_r1_def dup_r2_def mk_row_def)

lemma dedup_key_example_rows [simp]:
  "dedup_key dup_r0 = (CInt 1001, CInt 1, Str ''Alpha'')"
  "dedup_key dup_r1 = (CInt 1002, CInt 1, Str ''Alpha'')"
  "dedup_key dup_r2 = (CInt 1001, CInt 1, Str ''Alpha'')"
  by (simp_all add: dedup_key_def cell_of_def dup_r0_def dup_r1_def dup_r2_def mk_row_def)

lemma drop_duplicates_dup_frame: "drop_duplicates dup_frame = Inr dup_frame_clean"
  by (simp add: drop_duplicates_def sort_index_def dup_frame_def dup_frame_clean_def)

theorem drop_duplicates_idempotent_witness:
  "drop_duplicates dup_frame = Inr dup_frame_clean
   \<and> drop_duplicates dup_frame_clean = Inr dup_frame_clean
   \<and> rows dup_frame = [dup_r0, dup_r1, dup_r2]
   \<and> rows dup_frame_clean = [dup_r0, dup_r1]
   \<and> distinct (map dedup_key (rows dup_frame_clean))
   \<and> subseq (rows dup_frame_clean) (rows (sort_index dup_frame))"
proof -
  have cols: "''StudentID'' \<in> set (columns dup_frame) \<and> ''Term'' \<in> set (columns dup_frame)"
    by (simp add: dup_frame_def)
  from drop_duplicates_idempotent [OF drop_duplicates_dup_frame] cols
  show ?thesis
    using drop_duplicates_dup_frame by (simp add: dup_frame_def dup_frame_clean_def)
qed

text \<open>
  C10. A frame without a StudentID column or without a Term column passes through
  \<open>drop_duplicates\<close> unchanged: the result is the input frame itself (same rows, same
  order), and no error is raised.
\<close>

theorem drop_duplicates_without_identity:
  assumes "''StudentID'' \<notin> set (columns df) \<or> ''Term'' \<notin> set (columns df)"
  shows "drop_duplicates df = Inr df"
  using assms by (auto simp: drop_duplicates_def)

theorem drop_duplicates_without_identity_witness:
  "''Term'' \<notin> set (columns no_term_frame)
   \<and> drop_duplicates no_term_frame = Inr no_term_frame
   \<and> rows no_term_frame = [dup_r2, dup_r0, dup_r1]"
proof -
  have h: "''StudentID'' \<notin> set (columns no_term_frame) \<or> ''Term'' \<notin> set (columns no_term_frame)"
    by (simp add: no_term_frame_def)
  from drop_duplicates_without_identity [OF h] show ?thesis
    by (simp add: no_term_frame_def)
qed

end
